theory Spec2Isabelle
  imports Complex_Main "HOL-Library.Word"
begin

unbundle bit_operations_syntax

section \<open>Chunk constants and coordinate utilities (shared/ChunkConstants.ts)\<close>

definition CHUNK_SIZE :: int where
  "CHUNK_SIZE = 32"

definition CHUNK_HEIGHT :: int where
  "CHUNK_HEIGHT = 32"

definition WORLD_HEIGHT :: int where
  "WORLD_HEIGHT = 256"

definition BLOCKS_PER_CHUNK :: nat where
  "BLOCKS_PER_CHUNK = 32 * 32 * 32"

text \<open>
  \<^verbatim>\<open>blockIndex(x, y, z) = x + z * CHUNK_SIZE + y * CHUNK_SIZE * CHUNK_SIZE\<close>.
  The arguments are not range-checked by the source, so the index is an integer that may
  be negative or beyond the grid.
\<close>

definition blockIndex :: "int \<Rightarrow> int \<Rightarrow> int \<Rightarrow> int" where
  "blockIndex x y z = x + z * CHUNK_SIZE + y * CHUNK_SIZE * CHUNK_SIZE"

text \<open>
  The remainder operator \<^verbatim>\<open>%\<close> of JavaScript truncates towards zero: the result has the
  sign of the dividend.
\<close>

definition jsRem :: "int \<Rightarrow> int \<Rightarrow> int" where
  "jsRem a b = sgn a * (\<bar>a\<bar> mod \<bar>b\<bar>)"

record chunkPos =
  c_x :: int
  c_y :: int
  c_z :: int
  l_x :: int
  l_y :: int
  l_z :: int

text \<open>
  \<^verbatim>\<open>Math.floor(w / CHUNK_SIZE)\<close> is floor division, which is \<open>div\<close> on \<open>int\<close>;
  the local coordinate is \<^verbatim>\<open>((w % CHUNK_SIZE) + CHUNK_SIZE) % CHUNK_SIZE\<close>.
\<close>

definition worldToChunk :: "int \<Rightarrow> int \<Rightarrow> int \<Rightarrow> chunkPos" where
  "worldToChunk wx wy wz =
     \<lparr> c_x = wx div CHUNK_SIZE,
       c_y = wy div CHUNK_HEIGHT,
       c_z = wz div CHUNK_SIZE,
       l_x = jsRem (jsRem wx CHUNK_SIZE + CHUNK_SIZE) CHUNK_SIZE,
       l_y = jsRem (jsRem wy CHUNK_HEIGHT + CHUNK_HEIGHT) CHUNK_HEIGHT,
       l_z = jsRem (jsRem wz CHUNK_SIZE + CHUNK_SIZE) CHUNK_SIZE \<rparr>"

subsection \<open>Properties of the coordinate utilities\<close>

lemma jsRem_local:
  "jsRem (jsRem w 32 + 32) 32 = w mod 32"
proof (cases "0 \<le> w")
  case True
  then show ?thesis
    by (cases "w = 0") (simp_all add: jsRem_def sgn_if)
next
  case False
  then have neg: "w < 0" by simp
  have "\<bar>w\<bar> mod 32 = (- w) mod 32" using neg by simp
  moreover have "(- w) mod 32 < 32" by simp
  moreover have "0 \<le> (- w) mod 32" by simp
  ultimately have inner: "jsRem w 32 = - ((- w) mod 32)"
    using neg by (simp add: jsRem_def sgn_if)
  have "0 \<le> 32 - (- w) mod 32" by simp
  then have "jsRem (jsRem w 32 + 32) 32 = (32 - (- w) mod 32) mod 32"
    unfolding inner by (simp add: jsRem_def sgn_if)
  also have "\<dots> = w mod 32"
    by (metis add.commute diff_minus_eq_add minus_diff_eq mod_add_self1 mod_diff_right_eq
        mod_minus_eq uminus_add_conv_diff)
  finally show ?thesis .
qed

text \<open>
  Claim C9. For every integer world coordinate, negative ones included, the local
  coordinates returned by \<open>worldToChunk\<close> lie in \<open>[0, 32)\<close> and the chunk and local
  coordinates recompose the world coordinate: \<open>w = c * 32 + l\<close> on each axis.
\<close>

theorem worldToChunk_decomposition:
  "0 \<le> l_x (worldToChunk wx wy wz) \<and> l_x (worldToChunk wx wy wz) < 32 \<and>
   0 \<le> l_y (worldToChunk wx wy wz) \<and> l_y (worldToChunk wx wy wz) < 32 \<and>
   0 \<le> l_z (worldToChunk wx wy wz) \<and> l_z (worldToChunk wx wy wz) < 32 \<and>
   wx = c_x (worldToChunk wx wy wz) * 32 + l_x (worldToChunk wx wy wz) \<and>
   wy = c_y (worldToChunk wx wy wz) * 32 + l_y (worldToChunk wx wy wz) \<and>
   wz = c_z (worldToChunk wx wy wz) * 32 + l_z (worldToChunk wx wy wz)"
  by (simp add: worldToChunk_def CHUNK_SIZE_def CHUNK_HEIGHT_def jsRem_local)


section \<open>Block types (shared/BlockTypes.ts)\<close>

text \<open>
  \<^verbatim>\<open>BlockType\<close> is a numeric enum; grids store the codes as bytes, so the codes are
  modelled as natural numbers.
\<close>

definition Air :: nat where "Air = 0"
definition Grass :: nat where "Grass = 1"
definition Dirt :: nat where "Dirt = 2"
definition Stone :: nat where "Stone = 3"
definition Sand :: nat where "Sand = 4"
definition Water :: nat where "Water = 5"
definition Wood :: nat where "Wood = 6"
definition Leaves :: nat where "Leaves = 7"
definition Cobblestone :: nat where "Cobblestone = 8"
definition Planks :: nat where "Planks = 9"
definition Glass :: nat where "Glass = 10"
definition Brick :: nat where "Brick = 11"
definition Coal :: nat where "Coal = 12"
definition Iron :: nat where "Iron = 13"
definition Gold :: nat where "Gold = 14"
definition Flower :: nat where "Flower = 15"

lemmas BlockType_defs =
  Air_def Grass_def Dirt_def Stone_def Sand_def Water_def Wood_def Leaves_def
  Cobblestone_def Planks_def Glass_def Brick_def Coal_def Iron_def Gold_def Flower_def

text \<open>
  JavaScript numbers that hold fractions (colours, noise values, hash fractions) are
  idealised as rationals.
\<close>

type_synonym rgb = "rat \<times> rat \<times> rat"

record BlockProperties =
  name :: string
  color :: rgb
  transparent :: bool
  solid :: bool
  colorTop :: "rgb option"
  colorBottom :: "rgb option"

definition mkProps :: "string \<Rightarrow> rgb \<Rightarrow> bool \<Rightarrow> bool \<Rightarrow> BlockProperties" where
  "mkProps n c t s =
     \<lparr> name = n, color = c, transparent = t, solid = s, colorTop = None, colorBottom = None \<rparr>"

text \<open>
  \<^verbatim>\<open>BLOCK_PROPERTIES[code]\<close>: the lookup is \<open>None\<close> (\<^verbatim>\<open>undefined\<close>) for a code that has no
  entry.
\<close>

definition BLOCK_PROPERTIES :: "nat \<Rightarrow> BlockProperties option" where
  "BLOCK_PROPERTIES b =
    (if b = 0 then Some (mkProps ''Air'' (0, 0, 0) True False)
     else if b = 1 then
       Some \<lparr> name = ''Grass'', color = (36/100, 7/10, 2/10), transparent = False, solid = True,
              colorTop = Some (36/100, 7/10, 2/10), colorBottom = Some (55/100, 38/100, 2/10) \<rparr>
     else if b = 2 then Some (mkProps ''Dirt'' (55/100, 38/100, 2/10) False True)
     else if b = 3 then Some (mkProps ''Stone'' (5/10, 5/10, 5/10) False True)
     else if b = 4 then Some (mkProps ''Sand'' (86/100, 82/100, 56/100) False True)
     else if b = 5 then Some (mkProps ''Water'' (2/10, 4/10, 8/10) True False)
     else if b = 6 then Some (mkProps ''Wood'' (45/100, 3/10, 15/100) False True)
     else if b = 7 then Some (mkProps ''Leaves'' (2/10, 55/100, 15/100) True True)
     else if b = 8 then Some (mkProps ''Cobblestone'' (4/10, 4/10, 4/10) False True)
     else if b = 9 then Some (mkProps ''Planks'' (7/10, 55/100, 3/10) False True)
     else if b = 10 then Some (mkProps ''Glass'' (8/10, 9/10, 95/100) True True)
     else if b = 11 then Some (mkProps ''Brick'' (6/10, 25/100, 2/10) False True)
     else if b = 12 then Some (mkProps ''Coal'' (2/10, 2/10, 2/10) False True)
     else if b = 13 then Some (mkProps ''Iron'' (7/10, 6/10, 55/100) False True)
     else if b = 14 then Some (mkProps ''Gold'' (9/10, 8/10, 2/10) False True)
     else if b = 15 then Some (mkProps ''Flower'' (9/10, 2/10, 3/10) True False)
     else None)"

section \<open>Typed arrays\<close>

text \<open>
  A \<^verbatim>\<open>Uint8Array\<close> is a list of bytes. Reading outside the array yields \<^verbatim>\<open>undefined\<close>
  (\<open>None\<close>), writing outside is ignored, and a written value is reduced modulo 256.
\<close>

definition u8get :: "nat list \<Rightarrow> int \<Rightarrow> nat option" where
  "u8get xs i = (if 0 \<le> i \<and> nat i < length xs then Some (xs ! nat i) else None)"

definition u8set :: "nat list \<Rightarrow> int \<Rightarrow> nat \<Rightarrow> nat list" where
  "u8set xs i v = (if 0 \<le> i \<and> nat i < length xs then xs[nat i := v mod 256] else xs)"

lemma length_u8set [simp]: "length (u8set xs i v) = length xs"
  by (simp add: u8set_def)

lemma fold_invariant:
  "P s \<Longrightarrow> (\<And>x t. P t \<Longrightarrow> P (f x t)) \<Longrightarrow> P (fold f xs s)"
  by (induction xs arbitrary: s) simp_all


section \<open>Terrain generator (server/world/TerrainGenerator.ts)\<close>

definition BASE_HEIGHT :: rat where "BASE_HEIGHT = 64"
definition AMPLITUDE :: rat where "AMPLITUDE = 30"
definition WATER_LEVEL :: int where "WATER_LEVEL = 60"
definition CAVE_THRESHOLD :: rat where "CAVE_THRESHOLD = 6/10"
definition CAVE_MAX_Y :: int where "CAVE_MAX_Y = 50"

text \<open>The octaves, each a pair of frequency and amplitude.\<close>

definition OCTAVES :: "(rat \<times> rat) list" where
  "OCTAVES = [(1/100, 1), (2/100, 1/2), (4/100, 1/4), (8/100, 1/8)]"

type_synonym NoiseFunction2D = "rat \<Rightarrow> rat \<Rightarrow> rat"
type_synonym NoiseFunction3D = "rat \<Rightarrow> rat \<Rightarrow> rat \<Rightarrow> rat"

text \<open>
  \<^verbatim>\<open>sampleHeight\<close>: the loop over the octaves accumulates \<^verbatim>\<open>value\<close> and \<^verbatim>\<open>totalAmp\<close>;
  the result is \<^verbatim>\<open>Math.floor(BASE_HEIGHT + value / totalAmp * AMPLITUDE)\<close>.
\<close>

definition sampleHeight :: "NoiseFunction2D \<Rightarrow> int \<Rightarrow> int \<Rightarrow> int" where
  "sampleHeight noise wx wz =
     (let (val, totalAmp) =
            fold (\<lambda>(freq, amp) (val, totalAmp).
                    (val + noise (of_int wx * freq) (of_int wz * freq) * amp, totalAmp + amp))
                 OCTAVES (0, 0)
      in \<lfloor>BASE_HEIGHT + (val / totalAmp) * AMPLITUDE\<rfloor>)"

subsection \<open>The per-block hash\<close>

text \<open>
  \<^verbatim>\<open>ToInt32\<close> and \<^verbatim>\<open>ToUint32\<close>, the conversions that the bitwise operators of
  JavaScript apply to their operands.
\<close>

definition toInt32 :: "int \<Rightarrow> int" where
  "toInt32 n = signed_take_bit 31 n"

definition toUint32 :: "int \<Rightarrow> int" where
  "toUint32 n = take_bit 32 n"

fun bitLength :: "nat \<Rightarrow> nat" where
  "bitLength n = (if n = 0 then 0 else Suc (bitLength (n div 2)))"

text \<open>
  A product of two integers is computed in double precision: beyond 53 significant bits
  it is rounded to the nearest representable value, ties to even.
\<close>

definition roundDouble :: "int \<Rightarrow> int" where
  "roundDouble n =
     (let m = nat \<bar>n\<bar>; e = bitLength m - 53
      in if e = 0 then n
         else let q = m div 2 ^ e; r = m mod 2 ^ e; half = 2 ^ (e - 1);
                  q' = (if half < r \<or> (r = half \<and> odd q) then q + 1 else q)
              in sgn n * int (q' * 2 ^ e))"

text \<open>
  \<^verbatim>\<open>blockHash(x, y, z, seed)\<close>. The first three mixing steps end in \<^verbatim>\<open>| 0\<close>; the
  fourth is a plain multiplication, rounded as a double; the last exclusive-or converts
  back to 32 bits. The result is \<^verbatim>\<open>(h & 0x7fffffff) / 0x7fffffff\<close>.
\<close>

definition blockHash :: "int \<Rightarrow> int \<Rightarrow> int \<Rightarrow> int \<Rightarrow> rat" where
  "blockHash x y z seed =
     (let h0 = seed;
          h1 = toInt32 ((toInt32 h0 XOR toInt32 (roundDouble (x * 374761393))) + 1376312589);
          h2 = toInt32 ((toInt32 h1 XOR toInt32 (roundDouble (y * 668265263))) + 2144716967);
          h3 = toInt32 ((toInt32 h2 XOR toInt32 (roundDouble (z * 1274126177))) + 1879968187);
          h4 = roundDouble ((toInt32 h3 XOR toInt32 (drop_bit 13 (toUint32 h3))) * 1274126177);
          h5 = toInt32 h4 XOR toInt32 (drop_bit 16 (toUint32 h4))
      in of_int (toInt32 h5 AND 0x7fffffff) / 0x7fffffff)"

subsection \<open>The generator object\<close>

text \<open>
  The noise functions come from the libraries \<^verbatim>\<open>alea\<close> and \<^verbatim>\<open>simplex-noise\<close>, which are
  not part of the repository: they are parameters. \<^verbatim>\<open>Alea(seed)\<close> yields a generator
  state; each \<^verbatim>\<open>createNoise\<close> call draws from it and returns a noise function together
  with the advanced state.
\<close>

record 'r NoiseLib =
  Alea :: "int \<Rightarrow> 'r"
  createNoise2D :: "'r \<Rightarrow> NoiseFunction2D \<times> 'r"
  createNoise3D :: "'r \<Rightarrow> NoiseFunction3D \<times> 'r"

record TerrainGenerator =
  seed :: int
  noise2D :: NoiseFunction2D
  noise3D :: NoiseFunction3D
  treeNoise :: NoiseFunction2D

definition newTerrainGenerator :: "'r NoiseLib \<Rightarrow> int \<Rightarrow> TerrainGenerator" where
  "newTerrainGenerator lib s =
     (let rng = Alea lib s;
          (n2, rng1) = createNoise2D lib rng;
          (n3, rng2) = createNoise3D lib rng1;
          (tn, rng3) = createNoise2D lib rng2
      in \<lparr> seed = s, noise2D = n2, noise3D = n3, treeNoise = tn \<rparr>)"


subsection \<open>generateChunk\<close>

text \<open>
  The height map is an \<^verbatim>\<open>Int32Array\<close> of \<open>32 * 32\<close> cells, written once per column;
  a stored value is converted to 32 bits. It is only read at \<open>x + z * 32\<close> with
  \<open>x\<close> and \<open>z\<close> loop counters below 32, hence always inside the array.
\<close>

definition i32set :: "int list \<Rightarrow> int \<Rightarrow> int \<Rightarrow> int list" where
  "i32set xs i v = (if 0 \<le> i \<and> nat i < length xs then xs[nat i := toInt32 v] else xs)"

definition buildHeightMap :: "TerrainGenerator \<Rightarrow> int \<Rightarrow> int \<Rightarrow> int list" where
  "buildHeightMap g cx cz =
     fold (\<lambda>x hm.
        let wx = cx * CHUNK_SIZE + x in
        fold (\<lambda>z hm.
           let wz = cz * CHUNK_SIZE + z in
           i32set hm (x + z * CHUNK_SIZE) (sampleHeight (noise2D g) wx wz))
          [0..CHUNK_SIZE - 1] hm)
       [0..CHUNK_SIZE - 1] (replicate (32 * 32) 0)"

text \<open>Pass 1, the body of the innermost loop: terrain layers, caves, ores.\<close>

definition pass1Block :: "TerrainGenerator \<Rightarrow> int \<Rightarrow> int \<Rightarrow> int \<Rightarrow> int \<Rightarrow> nat" where
  "pass1Block g wx wy wz height =
     (let block =
            (if wy = height then (if height \<le> 62 then Sand else Grass)
             else if wy \<ge> height - 3 \<and> wy < height then Dirt
             else if wy < height - 3 then Stone
             else if wy \<le> WATER_LEVEL \<and> wy > height then Water
             else Air);
          block =
            (if block = Stone \<and> wy < CAVE_MAX_Y \<and> wy > 1 then
               (let caveValue = noise3D g (of_int wx * (5/100)) (of_int wy * (5/100))
                                  (of_int wz * (5/100))
                in if caveValue > CAVE_THRESHOLD then Air else block)
             else block)
      in if block = Stone then
           (let rnd = blockHash wx wy wz (seed g)
            in if wy < 20 \<and> rnd < 3/1000 then Gold
               else if wy < 40 \<and> rnd < 8/1000 then Iron
               else if wy < 60 \<and> rnd < 15/1000 then Coal
               else block)
         else block)"

definition pass1 :: "TerrainGenerator \<Rightarrow> int \<Rightarrow> int \<Rightarrow> int \<Rightarrow> int list \<Rightarrow> nat list \<Rightarrow> nat list" where
  "pass1 g cx cy cz heightMap data0 =
     (let chunkWorldY = cy * CHUNK_HEIGHT in
      fold (\<lambda>x data.
        let wx = cx * CHUNK_SIZE + x in
        fold (\<lambda>z data.
          let wz = cz * CHUNK_SIZE + z;
              height = heightMap ! nat (x + z * CHUNK_SIZE) in
          fold (\<lambda>y data.
            let wy = chunkWorldY + y;
                block = pass1Block g wx wy wz height
            in if block \<noteq> Air then u8set data (blockIndex x y z) block else data)
           [0..CHUNK_HEIGHT - 1] data)
         [0..CHUNK_SIZE - 1] data)
       [0..CHUNK_SIZE - 1] data0)"

text \<open>Pass 2: a flower one block above a grass surface.\<close>

definition pass2Column :: "TerrainGenerator \<Rightarrow> int \<Rightarrow> int \<Rightarrow> int \<Rightarrow> int list \<Rightarrow> int \<Rightarrow> int \<Rightarrow> nat list \<Rightarrow> nat list" where
  "pass2Column g cx cy cz heightMap x z data =
     (let chunkWorldY = cy * CHUNK_HEIGHT;
          wx = cx * CHUNK_SIZE + x;
          wz = cz * CHUNK_SIZE + z;
          height = heightMap ! nat (x + z * CHUNK_SIZE);
          flowerY = height + 1;
          ly = flowerY - chunkWorldY
      in if ly \<ge> 0 \<and> ly < CHUNK_HEIGHT \<and> height > WATER_LEVEL then
           (let surfaceLy = height - chunkWorldY
            in if surfaceLy \<ge> 0 \<and> surfaceLy < CHUNK_HEIGHT then
                 (if u8get data (blockIndex x surfaceLy z) = Some Grass then
                    (let rnd = blockHash wx flowerY wz (seed g + 7)
                     in if rnd < 2/100 then u8set data (blockIndex x ly z) Flower else data)
                  else data)
               else data)
         else data)"

definition pass2 :: "TerrainGenerator \<Rightarrow> int \<Rightarrow> int \<Rightarrow> int \<Rightarrow> int list \<Rightarrow> nat list \<Rightarrow> nat list" where
  "pass2 g cx cy cz heightMap data0 =
     fold (\<lambda>x data. fold (\<lambda>z data. pass2Column g cx cy cz heightMap x z data)
                       [0..CHUNK_SIZE - 1] data)
       [0..CHUNK_SIZE - 1] data0"

text \<open>
  Pass 3: trees. The leaf test \<^verbatim>\<open>Math.sqrt(dx*dx + dy*dy + dz*dz) > canopyRadius + 0.5\<close>
  is on the square root of an integer of at most 12; it holds exactly when four times
  the integer exceeds 25, which is how it is written here.
\<close>

definition placeTrunk :: "int \<Rightarrow> int \<Rightarrow> int \<Rightarrow> int \<Rightarrow> int \<Rightarrow> nat list \<Rightarrow> nat list" where
  "placeTrunk chunkWorldY height trunkHeight x z data0 =
     fold (\<lambda>ty data.
        let ly = height + ty - chunkWorldY
        in if ly \<ge> 0 \<and> ly < CHUNK_HEIGHT then u8set data (blockIndex x ly z) Wood else data)
       [1..trunkHeight] data0"

definition placeLeaves :: "int \<Rightarrow> int \<Rightarrow> int \<Rightarrow> int \<Rightarrow> nat list \<Rightarrow> nat list" where
  "placeLeaves chunkWorldY leafCenterY x z data0 =
     (let canopyRadius = 2 in
      fold (\<lambda>dx data.
        fold (\<lambda>dz data.
          fold (\<lambda>dy data.
            if 4 * (dx * dx + dy * dy + dz * dz) > 25 then data
            else
              (let lx = x + dx; lz = z + dz; ly = leafCenterY + dy - chunkWorldY
               in if lx < 0 \<or> lx \<ge> CHUNK_SIZE \<or> lz < 0 \<or> lz \<ge> CHUNK_SIZE then data
                  else if ly < 0 \<or> ly \<ge> CHUNK_HEIGHT then data
                  else if u8get data (blockIndex lx ly lz) = Some Air
                       then u8set data (blockIndex lx ly lz) Leaves
                       else data))
           [-1..canopyRadius] data)
         [- canopyRadius..canopyRadius] data)
       [- canopyRadius..canopyRadius] data0)"

definition pass3Column :: "TerrainGenerator \<Rightarrow> int \<Rightarrow> int \<Rightarrow> int \<Rightarrow> int list \<Rightarrow> int \<Rightarrow> int \<Rightarrow> nat list \<Rightarrow> nat list" where
  "pass3Column g cx cy cz heightMap x z data =
     (let chunkWorldY = cy * CHUNK_HEIGHT;
          wx = cx * CHUNK_SIZE + x;
          wz = cz * CHUNK_SIZE + z;
          height = heightMap ! nat (x + z * CHUNK_SIZE)
      in if height \<le> WATER_LEVEL then data
         else
          (let surfaceLy = height - chunkWorldY
           in if surfaceLy < 0 \<or> surfaceLy \<ge> CHUNK_HEIGHT then data
              else if u8get data (blockIndex x surfaceLy z) \<noteq> Some Grass then data
              else
               (let treeRnd = blockHash wx 0 wz (seed g + 42)
                in if treeRnd > 16/1000 then data
                   else if x < 2 \<or> x \<ge> CHUNK_SIZE - 2 \<or> z < 2 \<or> z \<ge> CHUNK_SIZE - 2 then data
                   else
                    (let flowerLy = height + 1 - chunkWorldY;
                         data1 =
                           (if flowerLy \<ge> 0 \<and> flowerLy < CHUNK_HEIGHT
                               \<and> u8get data (blockIndex x flowerLy z) = Some Flower
                            then u8set data (blockIndex x flowerLy z) Air else data);
                         trunkHeight = 4 + jsRem \<lfloor>treeRnd * 1000\<rfloor> 3;
                         data2 = placeTrunk chunkWorldY height trunkHeight x z data1;
                         leafCenterY = height + trunkHeight
                     in placeLeaves chunkWorldY leafCenterY x z data2))))"

definition pass3 :: "TerrainGenerator \<Rightarrow> int \<Rightarrow> int \<Rightarrow> int \<Rightarrow> int list \<Rightarrow> nat list \<Rightarrow> nat list" where
  "pass3 g cx cy cz heightMap data0 =
     fold (\<lambda>x data. fold (\<lambda>z data. pass3Column g cx cy cz heightMap x z data)
                       [0..CHUNK_SIZE - 1] data)
       [0..CHUNK_SIZE - 1] data0"

text \<open>
  The grid that \<^verbatim>\<open>generateChunk\<close> fills: a new zeroed array of \<open>32768\<close> bytes, then
  the three passes.
\<close>

definition generateChunkData :: "TerrainGenerator \<Rightarrow> int \<Rightarrow> int \<Rightarrow> int \<Rightarrow> nat list" where
  "generateChunkData g cx cy cz =
     (let data = replicate (nat (CHUNK_SIZE * CHUNK_SIZE * CHUNK_HEIGHT)) 0;
          heightMap = buildHeightMap g cx cz
      in pass3 g cx cy cz heightMap
           (pass2 g cx cy cz heightMap
              (pass1 g cx cy cz heightMap data)))"

subsection \<open>The store of arrays\<close>

text \<open>
  Arrays are objects that are shared by reference. The store maps an address to the
  content of the array allocated there; \<open>nextAddr\<close> is the next unused address.
\<close>

record store =
  arrays :: "nat \<Rightarrow> nat list option"
  nextAddr :: nat

definition newUint8Array :: "nat list \<Rightarrow> store \<Rightarrow> nat \<times> store" where
  "newUint8Array content st =
     (nextAddr st, st\<lparr> arrays := (arrays st)(nextAddr st \<mapsto> content), nextAddr := Suc (nextAddr st) \<rparr>)"

definition writeByte :: "nat \<Rightarrow> int \<Rightarrow> nat \<Rightarrow> store \<Rightarrow> store" where
  "writeByte a i v st =
     (case arrays st a of
        None \<Rightarrow> st
      | Some xs \<Rightarrow> st\<lparr> arrays := (arrays st)(a \<mapsto> u8set xs i v) \<rparr>)"

text \<open>
  \<^verbatim>\<open>generateChunk\<close> allocates its grid with \<^verbatim>\<open>new Uint8Array\<close>, writes to no other array
  and returns the new array; it keeps no reference to it.
\<close>

definition generateChunk :: "TerrainGenerator \<Rightarrow> int \<Rightarrow> int \<Rightarrow> int \<Rightarrow> store \<Rightarrow> nat \<times> store" where
  "generateChunk g cx cy cz st = newUint8Array (generateChunkData g cx cy cz) st"


section \<open>Chunk keys\<close>

text \<open>
  \<^verbatim>\<open>chunkKey(cx, cy, cz)\<close> is the template string \<^verbatim>\<open>`${cx},${cy},${cz}`\<close>: the decimal
  renderings of the three integers, separated by commas.
\<close>

definition digitChar :: "nat \<Rightarrow> char" where
  "digitChar d = char_of (48 + d)"

fun showNat :: "nat \<Rightarrow> string" where
  "showNat n = (if n < 10 then [digitChar n] else showNat (n div 10) @ [digitChar (n mod 10)])"

declare showNat.simps [simp del]

definition showInt :: "int \<Rightarrow> string" where
  "showInt i = (if i < 0 then CHR ''-'' # showNat (nat (- i)) else showNat (nat i))"

definition chunkKey :: "int \<Rightarrow> int \<Rightarrow> int \<Rightarrow> string" where
  "chunkKey cx cy cz = showInt cx @ '','' @ showInt cy @ '','' @ showInt cz"

section \<open>World manager (server/world/WorldManager.ts)\<close>

text \<open>
  A \<^verbatim>\<open>Map\<close> keeps its entries in insertion order: it is an association list with
  distinct keys. \<^verbatim>\<open>set\<close> replaces the value of a present key in place and appends an
  absent key at the end.
\<close>

fun mapSet :: "'k \<Rightarrow> 'v \<Rightarrow> ('k \<times> 'v) list \<Rightarrow> ('k \<times> 'v) list" where
  "mapSet k v [] = [(k, v)]"
| "mapSet k v ((k', v') # ps) = (if k' = k then (k, v) # ps else (k', v') # mapSet k v ps)"

text \<open>
  The world manager holds its seed, its generator and the map of modified chunks; the
  values of the map are references to arrays in the store.
\<close>

record WorldManager =
  worldSeed :: int
  terrainGenerator :: TerrainGenerator
  modifiedChunks :: "(string \<times> nat) list"

definition newWorldManager :: "'r NoiseLib \<Rightarrow> int \<Rightarrow> WorldManager" where
  "newWorldManager lib s =
     \<lparr> worldSeed = s, terrainGenerator = newTerrainGenerator lib s, modifiedChunks = [] \<rparr>"

text \<open>\<^verbatim>\<open>new Uint8Array(generated)\<close> copies the content of an array into a new array.\<close>

definition copyUint8Array :: "nat \<Rightarrow> store \<Rightarrow> nat \<times> store" where
  "copyUint8Array a st =
     newUint8Array (case arrays st a of None \<Rightarrow> [] | Some xs \<Rightarrow> xs) st"

definition getChunk :: "WorldManager \<Rightarrow> int \<Rightarrow> int \<Rightarrow> int \<Rightarrow> store \<Rightarrow> nat \<times> store" where
  "getChunk w cx cy cz st =
     (let key = chunkKey cx cy cz
      in case map_of (modifiedChunks w) key of
           Some modified \<Rightarrow> (modified, st)
         | None \<Rightarrow> generateChunk (terrainGenerator w) cx cy cz st)"

definition readByte :: "nat \<Rightarrow> int \<Rightarrow> store \<Rightarrow> nat option" where
  "readByte a i st = (case arrays st a of None \<Rightarrow> None | Some xs \<Rightarrow> u8get xs i)"

definition getBlock :: "WorldManager \<Rightarrow> int \<Rightarrow> int \<Rightarrow> int \<Rightarrow> store \<Rightarrow> nat option \<times> store" where
  "getBlock w x y z st =
     (if y < 0 \<or> y \<ge> WORLD_HEIGHT then (Some Air, st)
      else
        (let p = worldToChunk x y z;
             (chunk, st1) = getChunk w (c_x p) (c_y p) (c_z p) st
         in (readByte chunk (blockIndex (l_x p) (l_y p) (l_z p)) st1, st1)))"

text \<open>
  \<^verbatim>\<open>setBlock\<close> returns its boolean result together with the manager and the store as
  they are afterwards. The block type is a JavaScript number, hence an integer that the
  guard compares with 0 and \<^verbatim>\<open>BlockType.Flower\<close>.
\<close>

definition setBlock :: "WorldManager \<Rightarrow> int \<Rightarrow> int \<Rightarrow> int \<Rightarrow> int \<Rightarrow> store \<Rightarrow> bool \<times> WorldManager \<times> store" where
  "setBlock w x y z blockType st =
     (if y < 0 \<or> y \<ge> WORLD_HEIGHT then (False, w, st)
      else if blockType < 0 \<or> blockType > int Flower then (False, w, st)
      else
        (let p = worldToChunk x y z;
             key = chunkKey (c_x p) (c_y p) (c_z p);
             idx = blockIndex (l_x p) (l_y p) (l_z p)
         in case map_of (modifiedChunks w) key of
              Some chunk \<Rightarrow> (True, w, writeByte chunk idx (nat blockType) st)
            | None \<Rightarrow>
               (let (generated, st1) = generateChunk (terrainGenerator w) (c_x p) (c_y p) (c_z p) st;
                    (chunk, st2) = copyUint8Array generated st1;
                    w' = w\<lparr> modifiedChunks := mapSet key chunk (modifiedChunks w) \<rparr>
                in (True, w', writeByte chunk idx (nat blockType) st2))))"

subsection \<open>Properties of the generator and the world manager\<close>

lemma length_i32set [simp]: "length (i32set xs i v) = length xs"
  by (simp add: i32set_def)

lemma length_pass1: "length (pass1 g cx cy cz hm data) = length data"
  unfolding pass1_def Let_def
  by (rule fold_invariant, simp, rule fold_invariant, simp, rule fold_invariant) simp_all

lemma length_pass2Column: "length (pass2Column g cx cy cz hm x z data) = length data"
  by (simp add: pass2Column_def Let_def)

lemma length_pass2: "length (pass2 g cx cy cz hm data) = length data"
  unfolding pass2_def
  by (rule fold_invariant, simp, rule fold_invariant) (simp_all add: length_pass2Column)

lemma length_placeTrunk: "length (placeTrunk cwy h th x z data) = length data"
  unfolding placeTrunk_def
  by (rule fold_invariant) (simp_all add: Let_def)

lemma length_placeLeaves: "length (placeLeaves cwy lcy x z data) = length data"
  unfolding placeLeaves_def Let_def
  by (rule fold_invariant, simp, rule fold_invariant, simp, rule fold_invariant) simp_all

lemma length_pass3Column: "length (pass3Column g cx cy cz hm x z data) = length data"
  by (simp add: pass3Column_def Let_def length_placeTrunk length_placeLeaves)

lemma length_pass3: "length (pass3 g cx cy cz hm data) = length data"
  unfolding pass3_def
  by (rule fold_invariant, simp, rule fold_invariant) (simp_all add: length_pass3Column)

lemma length_generateChunkData: "length (generateChunkData g cx cy cz) = 32768"
  by (simp add: generateChunkData_def Let_def length_pass1 length_pass2 length_pass3
      CHUNK_SIZE_def CHUNK_HEIGHT_def)


text \<open>
  Fixtures for concrete instances: an empty store, and a noise library whose noise
  functions are constantly zero.
\<close>

definition emptyStore :: store where
  "emptyStore = \<lparr> arrays = Map.empty, nextAddr = 0 \<rparr>"

definition flatLib :: "unit NoiseLib" where
  "flatLib = \<lparr> Alea = (\<lambda>s. ()),
               createNoise2D = (\<lambda>r. ((\<lambda>x y. 0), r)),
               createNoise3D = (\<lambda>r. ((\<lambda>x y z. 0), r)) \<rparr>"

definition flatWorld :: WorldManager where
  "flatWorld = newWorldManager flatLib 12345"

lemma map_of_mapSet_same [simp]: "map_of (mapSet k v m) k = Some v"
  by (induction m) auto

lemma worldToChunk_index_range:
  "0 \<le> blockIndex (l_x (worldToChunk x y z)) (l_y (worldToChunk x y z)) (l_z (worldToChunk x y z))
   \<and> blockIndex (l_x (worldToChunk x y z)) (l_y (worldToChunk x y z)) (l_z (worldToChunk x y z)) < 32768"
proof -
  have "0 \<le> x mod 32" "x mod 32 < 32" "0 \<le> y mod 32" "y mod 32 < 32"
       "0 \<le> z mod 32" "z mod 32 < 32"
    by simp_all
  then show ?thesis
    by (simp add: worldToChunk_def blockIndex_def CHUNK_SIZE_def CHUNK_HEIGHT_def jsRem_local)
qed

text \<open>
  The grid reads only the seed and the two terrain noise functions of the generator:
  generators that agree on these produce the same grid.
\<close>

lemma generateChunkData_depends_on:
  assumes "seed g1 = seed g2" and "noise2D g1 = noise2D g2" and "noise3D g1 = noise3D g2"
  shows "generateChunkData g1 cx cy cz = generateChunkData g2 cx cy cz"
  unfolding generateChunkData_def buildHeightMap_def pass1_def pass1Block_def
    pass2_def pass2Column_def pass3_def pass3Column_def assms ..




text \<open>
  Claim C3. A successful \<open>setBlock\<close> on a chunk that has no modified entry copies the
  generated grid into a new array and writes there: the array that the generator
  returned still holds the baseline, every other array of the store is unchanged, the
  modified entry is the copy with the one byte replaced, and a fresh \<open>generateChunk\<close>
  for the same chunk coordinate returns the baseline again.
\<close>

theorem setBlock_copy_on_write:
  assumes "0 \<le> y" and "y < 256" and "0 \<le> blockType" and "blockType \<le> 15"
    and "map_of (modifiedChunks w)
           (chunkKey (c_x (worldToChunk x y z)) (c_y (worldToChunk x y z))
              (c_z (worldToChunk x y z))) = None"
  shows
   "(let p = worldToChunk x y z;
         key = chunkKey (c_x p) (c_y p) (c_z p);
         idx = blockIndex (l_x p) (l_y p) (l_z p);
         baseline = generateChunkData (terrainGenerator w) (c_x p) (c_y p) (c_z p);
         (ok, w', st') = setBlock w x y z blockType st;
         (fresh, st'') = generateChunk (terrainGenerator w') (c_x p) (c_y p) (c_z p) st'
     in ok
        \<and> arrays st' (nextAddr st) = Some baseline
        \<and> map_of (modifiedChunks w') key = Some (Suc (nextAddr st))
        \<and> arrays st' (Suc (nextAddr st)) = Some (baseline[nat idx := nat blockType])
        \<and> (\<forall>a. a \<noteq> nextAddr st \<and> a \<noteq> Suc (nextAddr st) \<longrightarrow> arrays st' a = arrays st a)
        \<and> arrays st'' fresh = Some baseline)"
proof -
  let ?p = "worldToChunk x y z"
  let ?idx = "blockIndex (l_x ?p) (l_y ?p) (l_z ?p)"
  have idx: "0 \<le> ?idx" "nat ?idx < 32768"
    using worldToChunk_index_range [of x y z] by linarith+
  have ty: "nat blockType mod 256 = nat blockType"
    using assms(3,4) by simp
  show ?thesis
    using assms idx ty
    by (simp add: setBlock_def WORLD_HEIGHT_def Flower_def Let_def generateChunk_def
        newUint8Array_def copyUint8Array_def writeByte_def u8set_def
        length_generateChunkData)
qed

theorem setBlock_copy_on_write_witness:
  "(0::int) \<le> 70 \<and> (70::int) < 256 \<and> (0::int) \<le> 3 \<and> (3::int) \<le> 15
   \<and> map_of (modifiedChunks flatWorld)
        (chunkKey (c_x (worldToChunk 1 70 2)) (c_y (worldToChunk 1 70 2))
           (c_z (worldToChunk 1 70 2))) = None
   \<and> (let p = worldToChunk 1 70 2;
           baseline = generateChunkData (terrainGenerator flatWorld) (c_x p) (c_y p) (c_z p);
           (ok, w', st') = setBlock flatWorld 1 70 2 3 emptyStore;
           (fresh, st'') = generateChunk (terrainGenerator w') (c_x p) (c_y p) (c_z p) st'
       in ok \<and> arrays st' (nextAddr emptyStore) = Some baseline
          \<and> arrays st'' fresh = Some baseline)"
proof -
  have h: "map_of (modifiedChunks flatWorld)
        (chunkKey (c_x (worldToChunk 1 70 2)) (c_y (worldToChunk 1 70 2))
           (c_z (worldToChunk 1 70 2))) = None"
    by (simp add: flatWorld_def newWorldManager_def)
  show ?thesis
    using h setBlock_copy_on_write [of 70 3 flatWorld 1 2 emptyStore]
    by (simp add: Let_def split_beta)
qed


section \<open>Worker pool (client/world/WorkerPool.ts)\<close>

text \<open>The six optional neighbour grids of a chunk.\<close>

record ChunkNeighbors =
  px :: "nat list option"
  nx :: "nat list option"
  py :: "nat list option"
  ny :: "nat list option"
  pz :: "nat list option"
  nz :: "nat list option"

text \<open>
  A job of the queue. Its \<^verbatim>\<open>resolve\<close> and \<^verbatim>\<open>reject\<close> callbacks settle the promise that
  \<^verbatim>\<open>meshChunk\<close> returned for it; the promise is identified by the job's id, and the
  pool state records the state of every promise.
\<close>

record PendingJob =
  jobId :: nat
  jobChunkData :: "nat list"
  jobNeighbors :: ChunkNeighbors
  jobCx :: int
  jobCy :: int
  jobCz :: int
  priority :: int

datatype 'r promise = Pending | Resolved 'r | Rejected

text \<open>
  A worker entry: the busy flag, and the jobs whose data have been posted to the worker,
  oldest first. A worker handles its messages in the order in which they were posted.
\<close>

record WorkerEntry =
  busy :: bool
  posted :: "PendingJob list"

record 'r WorkerPool =
  workers :: "WorkerEntry list"
  queue :: "PendingJob list"
  nextId :: nat
  pendingResolves :: "nat list"
  promises :: "nat \<Rightarrow> 'r promise option"

text \<open>
  The constructor creates \<^verbatim>\<open>Math.min(4, Math.max(1, (navigator.hardwareConcurrency || 4) - 1))\<close>
  idle workers; \<^verbatim>\<open>hardwareConcurrency\<close> may be undefined or 0.
\<close>

definition workerCount :: "nat option \<Rightarrow> nat" where
  "workerCount hc =
     (let n = (case hc of None \<Rightarrow> 4 | Some k \<Rightarrow> if k = 0 then 4 else k)
      in nat (min 4 (max 1 (int n - 1))))"

definition newWorkerPool :: "nat option \<Rightarrow> 'r WorkerPool" where
  "newWorkerPool hc =
     \<lparr> workers = replicate (workerCount hc) \<lparr> busy = False, posted = [] \<rparr>,
       queue = [], nextId = 0, pendingResolves = [], promises = (\<lambda>i. None) \<rparr>"

text \<open>
  \<^verbatim>\<open>dispatch\<close>: the loop over the worker entries. A busy worker, or an empty queue,
  skips the entry; otherwise the first job of the queue is taken, the entry becomes
  busy, the callbacks are registered and the job's data are posted to the worker.
\<close>

fun dispatchLoop :: "WorkerEntry list \<Rightarrow> PendingJob list \<Rightarrow> nat list
                      \<Rightarrow> WorkerEntry list \<times> PendingJob list \<times> nat list" where
  "dispatchLoop [] q pr = ([], q, pr)"
| "dispatchLoop (e # es) q pr =
     (if busy e \<or> q = [] then
        (let (es', q', pr') = dispatchLoop es q pr in (e # es', q', pr'))
      else
        (let job = hd q;
             e' = e\<lparr> busy := True, posted := posted e @ [job] \<rparr>;
             (es', q', pr') = dispatchLoop es (tl q) (List.insert (jobId job) pr)
         in (e' # es', q', pr')))"

definition dispatch :: "'r WorkerPool \<Rightarrow> 'r WorkerPool" where
  "dispatch p =
     (let (ws, q, pr) = dispatchLoop (workers p) (queue p) (pendingResolves p)
      in p\<lparr> workers := ws, queue := q, pendingResolves := pr \<rparr>)"

text \<open>
  The insertion loop of \<^verbatim>\<open>meshChunk\<close>: the job goes before the first queued job of
  strictly lower priority, or to the end.
\<close>

fun insertJob :: "PendingJob \<Rightarrow> PendingJob list \<Rightarrow> PendingJob list" where
  "insertJob job [] = [job]"
| "insertJob job (q # qs) =
     (if priority job > priority q then job # q # qs else q # insertJob job qs)"

text \<open>
  \<^verbatim>\<open>WorkerPool.meshChunk\<close>: creates the promise and the job, queues the job and calls
  \<^verbatim>\<open>dispatch\<close>. The result is the id of the promise, with the pool afterwards.
\<close>

definition poolMeshChunk :: "'r WorkerPool \<Rightarrow> nat list \<Rightarrow> ChunkNeighbors \<Rightarrow> int \<Rightarrow> int \<Rightarrow> int \<Rightarrow> int
                               \<Rightarrow> nat \<times> 'r WorkerPool" where
  "poolMeshChunk p data nbs cx cy cz prio =
     (let job = \<lparr> jobId = nextId p, jobChunkData = data, jobNeighbors = nbs,
                  jobCx = cx, jobCy = cy, jobCz = cz, priority = prio \<rparr>;
          p1 = p\<lparr> nextId := Suc (nextId p),
                  promises := (promises p)(nextId p \<mapsto> Pending),
                  queue := insertJob job (queue p) \<rparr>
      in (jobId job, dispatch p1))"

text \<open>
  The \<^verbatim>\<open>onmessage\<close> handler of worker \<open>i\<close>, for a message with the given id and result:
  a registered promise is unregistered and resolved; the entry becomes idle;
  \<^verbatim>\<open>dispatch\<close> runs.
\<close>

definition setBusy :: "nat \<Rightarrow> bool \<Rightarrow> WorkerEntry list \<Rightarrow> WorkerEntry list" where
  "setBusy i b ws = (if i < length ws then ws[i := (ws ! i)\<lparr> busy := b \<rparr>] else ws)"

definition onmessage :: "nat \<Rightarrow> nat \<Rightarrow> 'r \<Rightarrow> 'r WorkerPool \<Rightarrow> 'r WorkerPool" where
  "onmessage i mid result p =
     (let p1 = (if mid \<in> set (pendingResolves p)
                then p\<lparr> pendingResolves := removeAll mid (pendingResolves p),
                        promises := (promises p)(mid \<mapsto> Resolved result) \<rparr>
                else p)
      in dispatch (p1\<lparr> workers := setBusy i False (workers p1) \<rparr>))"

text \<open>
  The \<^verbatim>\<open>onerror\<close> handler of worker \<open>i\<close>: it logs the error, marks the entry idle and
  calls \<^verbatim>\<open>dispatch\<close>. It touches neither the registered callbacks nor any promise.
\<close>

definition onerror :: "nat \<Rightarrow> 'r WorkerPool \<Rightarrow> 'r WorkerPool" where
  "onerror i p = dispatch (p\<lparr> workers := setBusy i False (workers p) \<rparr>)"

text \<open>
  The worker \<open>i\<close> finishes the job that was posted to it last and answers with a
  message that carries the job's id.
\<close>

definition workerReplies :: "nat \<Rightarrow> 'r \<Rightarrow> 'r WorkerPool \<Rightarrow> 'r WorkerPool" where
  "workerReplies i result p =
     (case rev (posted (workers p ! i)) of
        [] \<Rightarrow> p
      | job # _ \<Rightarrow> onmessage i (jobId job) result p)"

text \<open>The pool states that the constructor and the three entry points can produce.\<close>

inductive reachablePool :: "'r WorkerPool \<Rightarrow> bool" where
  init: "reachablePool (newWorkerPool hc)"
| submit: "reachablePool p \<Longrightarrow> reachablePool (snd (poolMeshChunk p data nbs cx cy cz prio))"
| message: "reachablePool p \<Longrightarrow> i < length (workers p) \<Longrightarrow> reachablePool (onmessage i mid result p)"
| error: "reachablePool p \<Longrightarrow> i < length (workers p) \<Longrightarrow> reachablePool (onerror i p)"

subsection \<open>Properties of the worker pool\<close>

text \<open>
  The queue is sorted when priorities do not increase from its head to its end. The
  fixtures are a grid of air, an absent neighbourhood, and a run in which the priorities
  5, 1, 9 are submitted in this order to a new pool with one worker, which then
  finishes three jobs.
\<close>

definition sortedQueue :: "PendingJob list \<Rightarrow> bool" where
  "sortedQueue q = sorted_wrt (\<lambda>a b. priority b \<le> priority a) q"

definition allBusy :: "WorkerEntry list \<Rightarrow> bool" where
  "allBusy ws = list_all busy ws"

definition airChunk :: "nat list" where
  "airChunk = replicate 32768 Air"

definition noNeighbors :: ChunkNeighbors where
  "noNeighbors = \<lparr> px = None, nx = None, py = None, ny = None, pz = None, nz = None \<rparr>"

definition submitAll :: "int list \<Rightarrow> 'r WorkerPool \<Rightarrow> 'r WorkerPool" where
  "submitAll prios p0 = fold (\<lambda>prio p. snd (poolMeshChunk p airChunk noNeighbors 0 0 0 prio)) prios p0"

definition poolRun :: "unit option WorkerPool" where
  "poolRun = workerReplies 0 None (workerReplies 0 None (workerReplies 0 None
               (submitAll [5, 1, 9] (newWorkerPool (Some 2)))))"

lemma insertJob_set: "set (insertJob j q) = insert j (set q)"
  by (induction q) auto

lemma insertJob_sorted: "sortedQueue q \<Longrightarrow> sortedQueue (insertJob j q)"
  unfolding sortedQueue_def
  by (induction q) (auto simp add: insertJob_set)

lemma dispatchLoop_allBusy: "allBusy ws \<Longrightarrow> dispatchLoop ws q pr = (ws, q, pr)"
  unfolding allBusy_def by (induction ws) auto

lemma dispatchLoop_empty: "dispatchLoop ws [] pr = (ws, [], pr)"
  by (induction ws) auto

lemma dispatchLoop_post:
  "dispatchLoop ws q pr = (ws', q', pr') \<Longrightarrow>
     length ws' = length ws \<and> (\<exists>js. q = js @ q') \<and> (q' = [] \<or> allBusy ws')"
proof (induction ws arbitrary: q pr ws' q' pr')
  case Nil
  then show ?case by (simp add: allBusy_def)
next
  case (Cons e es)
  show ?case
  proof (cases "busy e \<or> q = []")
    case True
    obtain es1 q1 pr1 where r: "dispatchLoop es q pr = (es1, q1, pr1)"
      by (metis prod_cases3)
    with True Cons.prems have eq: "ws' = e # es1" "q' = q1" "pr' = pr1" by auto
    from Cons.IH [OF r] True eq show ?thesis
      by (auto simp add: allBusy_def)
  next
    case False
    obtain es1 q1 pr1 where r: "dispatchLoop es (tl q) (List.insert (jobId (hd q)) pr) = (es1, q1, pr1)"
      by (metis prod_cases3)
    with False Cons.prems have eq: "ws' = e\<lparr> busy := True, posted := posted e @ [hd q] \<rparr> # es1" "q' = q1" "pr' = pr1"
      by (auto simp add: Let_def)
    from Cons.IH [OF r] obtain js where js: "tl q = js @ q1" and rest: "length es1 = length es" "q1 = [] \<or> allBusy es1"
      by blast
    from False js have "q = (hd q # js) @ q1"
      by (cases q) auto
    then have "\<exists>ks. q = ks @ q1" by (rule exI)
    with rest eq show ?thesis
      by (simp add: allBusy_def)
  qed
qed

lemma sortedQueue_suffix: "sortedQueue (js @ q) \<Longrightarrow> sortedQueue q"
  by (simp add: sortedQueue_def sorted_wrt_append)

lemma dispatchLoop_one_idle:
  "i < length ws \<Longrightarrow> \<forall>k < length ws. k \<noteq> i \<longrightarrow> busy (ws ! k) \<Longrightarrow> \<not> busy (ws ! i) \<Longrightarrow> q \<noteq> [] \<Longrightarrow>
   dispatchLoop ws q pr =
     (ws[i := (ws ! i)\<lparr> busy := True, posted := posted (ws ! i) @ [hd q] \<rparr>], tl q, List.insert (jobId (hd q)) pr)"
proof (induction ws arbitrary: i)
  case Nil
  then show ?case by simp
next
  case (Cons e es)
  show ?case
  proof (cases i)
    case 0
    with Cons.prems have "allBusy es"
      by (auto simp add: allBusy_def list_all_length)
    with 0 Cons.prems show ?thesis
      by (simp add: dispatchLoop_allBusy Let_def)
  next
    case (Suc k)
    with Cons.prems have be: "busy e" by auto
    have "dispatchLoop es q pr =
       (es[k := (es ! k)\<lparr> busy := True, posted := posted (es ! k) @ [hd q] \<rparr>], tl q, List.insert (jobId (hd q)) pr)"
      using Cons.prems Suc by (intro Cons.IH) auto
    with be Suc show ?thesis by simp
  qed
qed

definition poolInv :: "'r WorkerPool \<Rightarrow> bool" where
  "poolInv p = (sortedQueue (queue p) \<and> (queue p = [] \<or> allBusy (workers p)))"

lemma poolInv_dispatch:
  assumes s: "sortedQueue (queue p)"
  shows "poolInv (dispatch p)"
proof -
  obtain ws q pr where r: "dispatchLoop (workers p) (queue p) (pendingResolves p) = (ws, q, pr)"
    by (metis prod_cases3)
  from dispatchLoop_post [OF r] obtain js where js: "queue p = js @ q" and busy: "q = [] \<or> allBusy ws"
    by blast
  from s js have "sortedQueue q"
    using sortedQueue_suffix by metis
  with busy show ?thesis
    by (simp add: dispatch_def r poolInv_def)
qed

lemma reachable_inv: "reachablePool p \<Longrightarrow> poolInv p"
proof (induction rule: reachablePool.induct)
  case (init hc)
  then show ?case by (simp add: poolInv_def newWorkerPool_def sortedQueue_def)
next
  case (submit p data nbs cx cy cz prio)
  then show ?case
    unfolding poolMeshChunk_def Let_def snd_conv
    by (intro poolInv_dispatch) (simp add: insertJob_sorted poolInv_def)
next
  case (message p i mid result)
  then show ?case
    unfolding onmessage_def Let_def
    by (intro poolInv_dispatch) (simp add: poolInv_def)
next
  case (error p i)
  then show ?case
    unfolding onerror_def
    by (intro poolInv_dispatch) (simp add: poolInv_def)
qed

lemma sortedQueue_hd: "sortedQueue q \<Longrightarrow> j \<in> set q \<Longrightarrow> priority j \<le> priority (hd q)"
  by (cases q) (auto simp add: sortedQueue_def)

lemma dispatchLoop_first_idle:
  "i < length ws \<Longrightarrow> \<forall>k < i. busy (ws ! k) \<Longrightarrow> \<not> busy (ws ! i) \<Longrightarrow>
   dispatchLoop ws [job] pr =
     (ws[i := (ws ! i)\<lparr> busy := True, posted := posted (ws ! i) @ [job] \<rparr>], [], List.insert (jobId job) pr)"
proof (induction ws arbitrary: i)
  case Nil
  then show ?case by simp
next
  case (Cons e es)
  show ?case
  proof (cases i)
    case 0
    with Cons.prems show ?thesis
      by (simp add: dispatchLoop_empty Let_def)
  next
    case (Suc k)
    with Cons.prems have be: "busy e" by auto
    have "dispatchLoop es [job] pr =
       (es[k := (es ! k)\<lparr> busy := True, posted := posted (es ! k) @ [job] \<rparr>], [], List.insert (jobId job) pr)"
      using Cons.prems Suc by (intro Cons.IH) auto
    with be Suc show ?thesis by simp
  qed
qed

lemma freed_worker_takes_head:
  assumes "reachablePool p" and "i < length (workers p)" and "queue p \<noteq> []"
  shows "dispatchLoop (setBusy i False (workers p)) (queue p) pr =
     ((workers p)[i := (workers p ! i)\<lparr> busy := True, posted := posted (workers p ! i) @ [hd (queue p)] \<rparr>],
      tl (queue p), List.insert (jobId (hd (queue p))) pr)"
proof -
  from reachable_inv [OF assms(1)] assms(3) have ab: "allBusy (workers p)"
    by (simp add: poolInv_def)
  let ?ws = "setBusy i False (workers p)"
  have a: "i < length ?ws" using assms(2) by (simp add: setBusy_def)
  have b: "\<forall>k < length ?ws. k \<noteq> i \<longrightarrow> busy (?ws ! k)"
    using ab assms(2) by (auto simp add: setBusy_def allBusy_def list_all_length)
  have c: "\<not> busy (?ws ! i)" using assms(2) by (simp add: setBusy_def)
  have e: "?ws[i := (?ws ! i)\<lparr> busy := True, posted := posted (?ws ! i) @ [hd (queue p)] \<rparr>]
         = (workers p)[i := (workers p ! i)\<lparr> busy := True, posted := posted (workers p ! i) @ [hd (queue p)] \<rparr>]"
    using assms(2) by (simp add: setBusy_def)
  show ?thesis
    using dispatchLoop_one_idle [OF a b c assms(3), of pr] e by simp
qed

lemma onmessage_dispatch:
  assumes "reachablePool p" and "i < length (workers p)" and "queue p \<noteq> []"
  shows "workers (onmessage i mid result p) =
           (workers p)[i := (workers p ! i)\<lparr> busy := True, posted := posted (workers p ! i) @ [hd (queue p)] \<rparr>]
       \<and> queue (onmessage i mid result p) = tl (queue p)"
  by (simp add: onmessage_def Let_def dispatch_def freed_worker_takes_head [OF assms])

lemma onerror_dispatch:
  assumes "reachablePool p" and "i < length (workers p)" and "queue p \<noteq> []"
  shows "workers (onerror i p) =
           (workers p)[i := (workers p ! i)\<lparr> busy := True, posted := posted (workers p ! i) @ [hd (queue p)] \<rparr>]
       \<and> queue (onerror i p) = tl (queue p)"
  by (simp add: onerror_def Let_def dispatch_def freed_worker_takes_head [OF assms])

lemma meshChunk_all_busy:
  assumes "allBusy (workers p)"
  shows "workers (snd (poolMeshChunk p data nbs cx cy cz prio)) = workers p
       \<and> queue (snd (poolMeshChunk p data nbs cx cy cz prio)) =
           insertJob \<lparr> jobId = nextId p, jobChunkData = data, jobNeighbors = nbs,
                  jobCx = cx, jobCy = cy, jobCz = cz, priority = prio \<rparr> (queue p)"
  using assms by (simp add: poolMeshChunk_def Let_def dispatch_def dispatchLoop_allBusy)

lemma meshChunk_idle:
  assumes "queue p = []" and "i < length (workers p)" and "\<forall>k < i. busy (workers p ! k)"
    and "\<not> busy (workers p ! i)"
  shows "workers (snd (poolMeshChunk p data nbs cx cy cz prio)) =
           (workers p)[i := (workers p ! i)\<lparr> busy := True, posted := posted (workers p ! i) @
              [\<lparr> jobId = nextId p, jobChunkData = data, jobNeighbors = nbs,
                  jobCx = cx, jobCy = cy, jobCz = cz, priority = prio \<rparr>] \<rparr>]
       \<and> queue (snd (poolMeshChunk p data nbs cx cy cz prio)) = []"
  using assms
  by (simp add: poolMeshChunk_def Let_def dispatch_def dispatchLoop_first_idle [OF assms(2,3,4)])

lemma poolRun_order: "map priority (posted (workers poolRun ! 0)) = [5, 9, 1]"
  by (simp add: poolRun_def submitAll_def poolMeshChunk_def newWorkerPool_def workerCount_def dispatch_def Let_def
       workerReplies_def onmessage_def setBusy_def)


lemma onerror_promises: "promises (onerror i p) = promises p"
  by (simp add: onerror_def dispatch_def split_beta)

text \<open>
  Fixtures: the pool with one worker after the submissions of the priorities 5, 1, 9
  (the worker is busy with the first job, the other two are queued), and a new pool
  with one idle worker.
\<close>

definition queuedPool :: "unit option WorkerPool" where
  "queuedPool = submitAll [5, 1, 9] (newWorkerPool (Some 2))"

definition idlePool :: "unit option WorkerPool" where
  "idlePool = newWorkerPool (Some 2)"

lemma submitAll_reachable: "reachablePool p \<Longrightarrow> reachablePool (submitAll prios p)"
  unfolding submitAll_def
  by (rule fold_invariant) (auto intro: reachablePool.submit)

lemma queuedPool_reachable: "reachablePool queuedPool"
  unfolding queuedPool_def by (rule submitAll_reachable) (rule reachablePool.init)

lemma queuedPool_state:
  "queue queuedPool =
     [\<lparr> jobId = 2, jobChunkData = airChunk, jobNeighbors = noNeighbors,
         jobCx = 0, jobCy = 0, jobCz = 0, priority = 9 \<rparr>,
      \<lparr> jobId = 1, jobChunkData = airChunk, jobNeighbors = noNeighbors,
         jobCx = 0, jobCy = 0, jobCz = 0, priority = 1 \<rparr>]
   \<and> workers queuedPool =
     [\<lparr> busy = True, posted = [\<lparr> jobId = 0, jobChunkData = airChunk, jobNeighbors = noNeighbors,
         jobCx = 0, jobCy = 0, jobCz = 0, priority = 5 \<rparr>] \<rparr>]"
  by (simp add: queuedPool_def submitAll_def poolMeshChunk_def newWorkerPool_def workerCount_def
      dispatch_def Let_def)

lemma idlePool_state:
  "queue idlePool = [] \<and> workers idlePool = [\<lparr> busy = False, posted = [] \<rparr>] \<and> nextId idlePool = 0"
  by (simp add: idlePool_def newWorkerPool_def workerCount_def)

text \<open>
  Claim C8, as amended. On a new pool with one worker the jobs of priorities 5, 1, 9 are
  processed in the order 5, 9, 1: the first job is dispatched at its submission, while
  the worker is idle. A job is only ever dispatched from the head of the queue, and no
  queued job has a higher priority than the head. In every reachable pool this covers
  the three callers of \<^verbatim>\<open>dispatch\<close>. With a non-empty queue (all workers are then busy), the
  worker that reports a result (\<^verbatim>\<open>onmessage\<close>) or an error (\<^verbatim>\<open>onerror\<close>) is handed the head
  of the queue, no other worker changes and the rest of the queue stays; a submission
  (\<^verbatim>\<open>meshChunk\<close>) dispatches nothing and inserts the new job in priority order. With an
  empty queue, a submission hands the new job at once to the first idle worker, or
  queues it when all workers are busy.
\<close>

theorem pool_dispatches_highest_queued_first:
  "map priority (posted (workers poolRun ! 0)) = [5, 9, 1]
   \<and> (reachablePool p \<and> i < length (workers p) \<longrightarrow>
       (let job = \<lparr> jobId = nextId p, jobChunkData = data, jobNeighbors = nbs,
                     jobCx = cx, jobCy = cy, jobCz = cz, priority = prio \<rparr>;
            p' = snd (poolMeshChunk p data nbs cx cy cz prio);
            takesHead = (workers p)[i := (workers p ! i)
                          \<lparr> busy := True, posted := posted (workers p ! i) @ [hd (queue p)] \<rparr>]
        in (\<forall>j \<in> set (queue p). priority j \<le> priority (hd (queue p)))
         \<and> (queue p \<noteq> [] \<longrightarrow>
              workers (onmessage i mid result p) = takesHead
              \<and> queue (onmessage i mid result p) = tl (queue p)
              \<and> workers (onerror i p) = takesHead
              \<and> queue (onerror i p) = tl (queue p)
              \<and> workers p' = workers p
              \<and> queue p' = insertJob job (queue p))
         \<and> (queue p = [] \<and> \<not> busy (workers p ! i) \<and> (\<forall>k < i. busy (workers p ! k)) \<longrightarrow>
              workers p' = (workers p)[i := (workers p ! i)
                              \<lparr> busy := True, posted := posted (workers p ! i) @ [job] \<rparr>]
              \<and> queue p' = [])
         \<and> (allBusy (workers p) \<longrightarrow>
              workers p' = workers p \<and> queue p' = insertJob job (queue p))))"
proof (intro conjI impI)
  show "map priority (posted (workers poolRun ! 0)) = [5, 9, 1]"
    by (rule poolRun_order)
next
  assume a: "reachablePool p \<and> i < length (workers p)"
  then have r: "reachablePool p" and l: "i < length (workers p)"
    by simp_all
  have s: "\<forall>j \<in> set (queue p). priority j \<le> priority (hd (queue p))"
    using reachable_inv [OF r] sortedQueue_hd by (auto simp add: poolInv_def)
  have busyq: "queue p \<noteq> [] \<Longrightarrow> allBusy (workers p)"
    using reachable_inv [OF r] by (simp add: poolInv_def)
  show "let job = \<lparr> jobId = nextId p, jobChunkData = data, jobNeighbors = nbs,
                     jobCx = cx, jobCy = cy, jobCz = cz, priority = prio \<rparr>;
            p' = snd (poolMeshChunk p data nbs cx cy cz prio);
            takesHead = (workers p)[i := (workers p ! i)
                          \<lparr> busy := True, posted := posted (workers p ! i) @ [hd (queue p)] \<rparr>]
        in (\<forall>j \<in> set (queue p). priority j \<le> priority (hd (queue p)))
         \<and> (queue p \<noteq> [] \<longrightarrow>
              workers (onmessage i mid result p) = takesHead
              \<and> queue (onmessage i mid result p) = tl (queue p)
              \<and> workers (onerror i p) = takesHead
              \<and> queue (onerror i p) = tl (queue p)
              \<and> workers p' = workers p
              \<and> queue p' = insertJob job (queue p))
         \<and> (queue p = [] \<and> \<not> busy (workers p ! i) \<and> (\<forall>k < i. busy (workers p ! k)) \<longrightarrow>
              workers p' = (workers p)[i := (workers p ! i)
                              \<lparr> busy := True, posted := posted (workers p ! i) @ [job] \<rparr>]
              \<and> queue p' = [])
         \<and> (allBusy (workers p) \<longrightarrow>
              workers p' = workers p \<and> queue p' = insertJob job (queue p))"
    unfolding Let_def
  proof (intro conjI impI)
    show "\<forall>j \<in> set (queue p). priority j \<le> priority (hd (queue p))" by (rule s)
  next
    assume q: "queue p \<noteq> []"
    from onmessage_dispatch [OF r l q, of mid result]
    show "workers (onmessage i mid result p) = (workers p)[i := (workers p ! i)
            \<lparr> busy := True, posted := posted (workers p ! i) @ [hd (queue p)] \<rparr>]" by simp
    from onmessage_dispatch [OF r l q, of mid result]
    show "queue (onmessage i mid result p) = tl (queue p)" by simp
    from onerror_dispatch [OF r l q]
    show "workers (onerror i p) = (workers p)[i := (workers p ! i)
            \<lparr> busy := True, posted := posted (workers p ! i) @ [hd (queue p)] \<rparr>]" by simp
    from onerror_dispatch [OF r l q]
    show "queue (onerror i p) = tl (queue p)" by simp
    from meshChunk_all_busy [OF busyq [OF q], of data nbs cx cy cz prio]
    show "workers (snd (poolMeshChunk p data nbs cx cy cz prio)) = workers p" by simp
    from meshChunk_all_busy [OF busyq [OF q], of data nbs cx cy cz prio]
    show "queue (snd (poolMeshChunk p data nbs cx cy cz prio)) =
          insertJob \<lparr> jobId = nextId p, jobChunkData = data, jobNeighbors = nbs,
                     jobCx = cx, jobCy = cy, jobCz = cz, priority = prio \<rparr> (queue p)" by simp
  next
    assume h: "queue p = [] \<and> \<not> busy (workers p ! i) \<and> (\<forall>k < i. busy (workers p ! k))"
    then have h1: "queue p = []" and h2: "\<not> busy (workers p ! i)" and h3: "\<forall>k < i. busy (workers p ! k)"
      by simp_all
    from meshChunk_idle [OF h1 l h3 h2, of data nbs cx cy cz prio]
    show "workers (snd (poolMeshChunk p data nbs cx cy cz prio)) = (workers p)[i := (workers p ! i)
             \<lparr> busy := True, posted := posted (workers p ! i) @
               [\<lparr> jobId = nextId p, jobChunkData = data, jobNeighbors = nbs,
                     jobCx = cx, jobCy = cy, jobCz = cz, priority = prio \<rparr>] \<rparr>]" by simp
    from meshChunk_idle [OF h1 l h3 h2, of data nbs cx cy cz prio]
    show "queue (snd (poolMeshChunk p data nbs cx cy cz prio)) = []" by simp
  next
    assume b: "allBusy (workers p)"
    from meshChunk_all_busy [OF b, of data nbs cx cy cz prio]
    show "workers (snd (poolMeshChunk p data nbs cx cy cz prio)) = workers p" by simp
    from meshChunk_all_busy [OF b, of data nbs cx cy cz prio]
    show "queue (snd (poolMeshChunk p data nbs cx cy cz prio)) =
          insertJob \<lparr> jobId = nextId p, jobChunkData = data, jobNeighbors = nbs,
                     jobCx = cx, jobCy = cy, jobCz = cz, priority = prio \<rparr> (queue p)" by simp
  qed
qed

theorem pool_dispatches_highest_queued_first_witness:
  "reachablePool queuedPool \<and> 0 < length (workers queuedPool) \<and> queue queuedPool \<noteq> []
   \<and> map priority (posted (workers (onmessage 0 0 None queuedPool) ! 0)) = [5, 9]
   \<and> map priority (queue (onmessage 0 0 None queuedPool)) = [1]
   \<and> map priority (posted (workers (onerror 0 queuedPool) ! 0)) = [5, 9]
   \<and> map priority (queue (onerror 0 queuedPool)) = [1]
   \<and> map priority (posted (workers (snd (poolMeshChunk queuedPool airChunk noNeighbors 0 0 0 7)) ! 0)) = [5]
   \<and> map priority (queue (snd (poolMeshChunk queuedPool airChunk noNeighbors 0 0 0 7))) = [9, 7, 1]
   \<and> reachablePool idlePool \<and> queue idlePool = [] \<and> \<not> busy (workers idlePool ! 0)
   \<and> map priority (posted (workers (snd (poolMeshChunk idlePool airChunk noNeighbors 0 0 0 5)) ! 0)) = [5]
   \<and> queue (snd (poolMeshChunk idlePool airChunk noNeighbors 0 0 0 5)) = []"
proof -
  have r: "reachablePool queuedPool" by (rule queuedPool_reachable)
  have l: "0 < length (workers queuedPool)" and q: "queue queuedPool \<noteq> []"
    using queuedPool_state by simp_all
  have ri: "reachablePool idlePool" unfolding idlePool_def by (rule reachablePool.init)
  have li: "0 < length (workers idlePool)" and qi: "queue idlePool = []"
    and bi: "\<not> busy (workers idlePool ! 0)"
    using idlePool_state by simp_all
  from pool_dispatches_highest_queued_first [of queuedPool 0 airChunk noNeighbors 0 0 0 7 0 None] r l q
  have a: "workers (onmessage 0 0 None queuedPool) = (workers queuedPool)[0 := (workers queuedPool ! 0)
             \<lparr> busy := True, posted := posted (workers queuedPool ! 0) @ [hd (queue queuedPool)] \<rparr>]"
          "queue (onmessage 0 0 None queuedPool) = tl (queue queuedPool)"
          "workers (onerror 0 queuedPool) = (workers queuedPool)[0 := (workers queuedPool ! 0)
             \<lparr> busy := True, posted := posted (workers queuedPool ! 0) @ [hd (queue queuedPool)] \<rparr>]"
          "queue (onerror 0 queuedPool) = tl (queue queuedPool)"
          "workers (snd (poolMeshChunk queuedPool airChunk noNeighbors 0 0 0 7)) = workers queuedPool"
          "queue (snd (poolMeshChunk queuedPool airChunk noNeighbors 0 0 0 7)) =
             insertJob \<lparr> jobId = nextId queuedPool, jobChunkData = airChunk, jobNeighbors = noNeighbors,
                     jobCx = 0, jobCy = 0, jobCz = 0, priority = 7 \<rparr> (queue queuedPool)"
    by (simp_all add: Let_def)
  from pool_dispatches_highest_queued_first [of idlePool 0 airChunk noNeighbors 0 0 0 5 0 None] ri li qi bi
  have b: "workers (snd (poolMeshChunk idlePool airChunk noNeighbors 0 0 0 5)) = (workers idlePool)[0 := (workers idlePool ! 0)
             \<lparr> busy := True, posted := posted (workers idlePool ! 0) @
                [\<lparr> jobId = nextId idlePool, jobChunkData = airChunk, jobNeighbors = noNeighbors,
                     jobCx = 0, jobCy = 0, jobCz = 0, priority = 5 \<rparr>] \<rparr>]"
          "queue (snd (poolMeshChunk idlePool airChunk noNeighbors 0 0 0 5)) = []"
    by (simp_all add: Let_def)
  show ?thesis
    unfolding a b using r ri by (simp add: queuedPool_state idlePool_state)
qed

text \<open>
  The claim as stated fails on that run: the order in which the single worker receives
  the jobs is not 9, 5, 1.
\<close>

theorem pool_order_counterexample:
  "map priority (posted (workers poolRun ! 0)) \<noteq> [9, 5, 1]"
  using poolRun_order by simp

text \<open>
  Claim C7 (evaluation of the code). A job is submitted to a new pool with one worker and
  dispatched; the worker then raises an error event. The handler leaves every promise as
  it was: the promise of the job in flight is still pending, not rejected, and its
  callbacks are still registered, while the worker counts as idle.
\<close>

definition failedRun :: "unit option WorkerPool" where
  "failedRun = onerror 0 (snd (poolMeshChunk (newWorkerPool (Some 2)) airChunk noNeighbors 0 0 0 1000))"

theorem worker_error_leaves_promise_pending:
  "promises (onerror i p) = promises p
   \<and> promises failedRun 0 = Some Pending
   \<and> pendingResolves failedRun = [0]
   \<and> map busy (workers failedRun) = [False]
   \<and> queue failedRun = []"
proof -
  have "promises failedRun 0 = Some Pending \<and> pendingResolves failedRun = [0]
        \<and> map busy (workers failedRun) = [False] \<and> queue failedRun = []"
    by (simp add: failedRun_def onerror_def poolMeshChunk_def newWorkerPool_def
        workerCount_def dispatch_def Let_def setBusy_def)
  then show ?thesis
    using onerror_promises [of i p] by simp
qed


section \<open>Greedy mesher (client/world/ChunkMesher.ts, client/world/ChunkMeshWorker.ts)\<close>

text \<open>
  The only exception that the mesher can raise is the \<^verbatim>\<open>TypeError\<close> of a property read on
  \<^verbatim>\<open>undefined\<close>, when \<^verbatim>\<open>BLOCK_PROPERTIES\<close> has no entry for a code.
\<close>

datatype meshError = TypeError

text \<open>A loop whose body may raise: the first error ends it.\<close>

fun foldE :: "('a \<Rightarrow> 's \<Rightarrow> meshError + 's) \<Rightarrow> 'a list \<Rightarrow> 's \<Rightarrow> meshError + 's" where
  "foldE f [] s = Inr s"
| "foldE f (x # xs) s = (case f x s of Inl e \<Rightarrow> Inl e | Inr s' \<Rightarrow> foldE f xs s')"

definition AO_CURVE :: "rat list" where
  "AO_CURVE = [4/10, 6/10, 8/10, 1]"

text \<open>
  \<^verbatim>\<open>getBlock\<close> of the mesher: inside the chunk it reads the grid; outside, the first
  matching neighbour grid that is present; otherwise air. A read may leave the array
  and is then \<^verbatim>\<open>undefined\<close>.
\<close>

definition mesherGetBlock :: "nat list \<Rightarrow> ChunkNeighbors \<Rightarrow> int \<Rightarrow> int \<Rightarrow> int \<Rightarrow> nat option" where
  "mesherGetBlock data nbs x y z =
     (if x \<ge> 0 \<and> x < CHUNK_SIZE \<and> y \<ge> 0 \<and> y < CHUNK_HEIGHT \<and> z \<ge> 0 \<and> z < CHUNK_SIZE
        then u8get data (blockIndex x y z)
      else if x \<ge> CHUNK_SIZE \<and> px nbs \<noteq> None
        then u8get (the (px nbs)) (blockIndex (x - CHUNK_SIZE) y z)
      else if x < 0 \<and> nx nbs \<noteq> None
        then u8get (the (nx nbs)) (blockIndex (x + CHUNK_SIZE) y z)
      else if y \<ge> CHUNK_HEIGHT \<and> py nbs \<noteq> None
        then u8get (the (py nbs)) (blockIndex x (y - CHUNK_HEIGHT) z)
      else if y < 0 \<and> ny nbs \<noteq> None
        then u8get (the (ny nbs)) (blockIndex x (y + CHUNK_HEIGHT) z)
      else if z \<ge> CHUNK_SIZE \<and> pz nbs \<noteq> None
        then u8get (the (pz nbs)) (blockIndex x y (z - CHUNK_SIZE))
      else if z < 0 \<and> nz nbs \<noteq> None
        then u8get (the (nz nbs)) (blockIndex x y (z + CHUNK_SIZE))
      else Some Air)"

text \<open>\<^verbatim>\<open>BLOCK_PROPERTIES[blockType]?.solid ?? false\<close>, for a block type that may be undefined.\<close>

definition isSolid :: "nat option \<Rightarrow> bool" where
  "isSolid blockType =
     (case blockType of
        None \<Rightarrow> False
      | Some b \<Rightarrow> (case BLOCK_PROPERTIES b of None \<Rightarrow> False | Some props \<Rightarrow> solid props))"

definition getBlockColor :: "nat \<Rightarrow> nat \<Rightarrow> meshError + rgb" where
  "getBlockColor blockType faceIndex =
     (case BLOCK_PROPERTIES blockType of
        None \<Rightarrow> Inl TypeError
      | Some props \<Rightarrow>
          if faceIndex = 2 \<and> colorTop props \<noteq> None then Inr (the (colorTop props))
          else if faceIndex = 3 \<and> colorBottom props \<noteq> None then Inr (the (colorBottom props))
          else Inr (color props))"

definition vertexAO :: "bool \<Rightarrow> bool \<Rightarrow> bool \<Rightarrow> nat" where
  "vertexAO side1 side2 corner =
     (if side1 \<and> side2 then 0
      else 3 - ((if side1 then 1 else 0) + (if side2 then 1 else 0) + (if corner then 1 else 0)))"

text \<open>
  A face definition: the normal axis \<^verbatim>\<open>d\<close>, the tangent axes \<^verbatim>\<open>u\<close> and \<^verbatim>\<open>v\<close>
  (0 = x, 1 = y, 2 = z), the sign of the normal, the face index and the normal vector.
\<close>

record FaceDef =
  axisD :: nat
  axisU :: nat
  axisV :: nat
  faceSign :: int
  faceIdx :: nat
  faceNormal :: "int \<times> int \<times> int"

definition FACE_DEFS :: "FaceDef list" where
  "FACE_DEFS =
     [ \<lparr> axisD = 0, axisU = 2, axisV = 1, faceSign = 1, faceIdx = 0, faceNormal = (1, 0, 0) \<rparr>,
       \<lparr> axisD = 0, axisU = 2, axisV = 1, faceSign = -1, faceIdx = 1, faceNormal = (-1, 0, 0) \<rparr>,
       \<lparr> axisD = 1, axisU = 0, axisV = 2, faceSign = 1, faceIdx = 2, faceNormal = (0, 1, 0) \<rparr>,
       \<lparr> axisD = 1, axisU = 0, axisV = 2, faceSign = -1, faceIdx = 3, faceNormal = (0, -1, 0) \<rparr>,
       \<lparr> axisD = 2, axisU = 0, axisV = 1, faceSign = 1, faceIdx = 4, faceNormal = (0, 0, 1) \<rparr>,
       \<lparr> axisD = 2, axisU = 0, axisV = 1, faceSign = -1, faceIdx = 5, faceNormal = (0, 0, -1) \<rparr> ]"

definition AXIS_SIZE :: "nat list" where
  "AXIS_SIZE = [nat CHUNK_SIZE, nat CHUNK_HEIGHT, nat CHUNK_SIZE]"

text \<open>
  \<^verbatim>\<open>shouldShowFace\<close>. Either block type may be \<^verbatim>\<open>undefined\<close>; the read of
  \<^verbatim>\<open>neighborProps.transparent\<close> raises when the neighbour's code has no properties.
\<close>

definition shouldShowFace :: "nat option \<Rightarrow> nat option \<Rightarrow> meshError + bool" where
  "shouldShowFace blockType neighborType =
     (if neighborType = Some Air then Inr True
      else
        (case (case neighborType of None \<Rightarrow> None | Some n \<Rightarrow> BLOCK_PROPERTIES n) of
           None \<Rightarrow> Inl TypeError
         | Some neighborProps \<Rightarrow>
             if transparent neighborProps \<and> neighborType \<noteq> blockType then Inr True
             else Inr False))"

text \<open>
  A position \<^verbatim>\<open>[0, 0, 0]\<close> whose components at the axes of the face are assigned in the
  order \<^verbatim>\<open>d\<close>, \<^verbatim>\<open>u\<close>, \<^verbatim>\<open>v\<close>.
\<close>

definition facePos :: "FaceDef \<Rightarrow> int \<Rightarrow> int \<Rightarrow> int \<Rightarrow> int list" where
  "facePos face pd pu pv = [0, 0, 0][axisD face := pd, axisU face := pu, axisV face := pv]"

text \<open>
  The value that the mask receives at cell \<open>(u, v)\<close> of slice \<open>d\<close>. Storing
  \<^verbatim>\<open>undefined\<close> in an \<^verbatim>\<open>Int32Array\<close> stores 0.
\<close>

definition maskCell :: "FaceDef \<Rightarrow> nat list \<Rightarrow> ChunkNeighbors \<Rightarrow> nat \<Rightarrow> nat \<Rightarrow> nat \<Rightarrow> meshError + nat" where
  "maskCell face data nbs d u v =
     (let pos = facePos face (int d) (int u) (int v);
          blockType = u8get data (blockIndex (pos ! 0) (pos ! 1) (pos ! 2))
      in if blockType = Some Air then Inr 0
         else
           (let nPos = pos[axisD face := pos ! axisD face + faceSign face];
                neighborType = mesherGetBlock data nbs (nPos ! 0) (nPos ! 1) (nPos ! 2)
            in case shouldShowFace blockType neighborType of
                 Inl e \<Rightarrow> Inl e
               | Inr shown \<Rightarrow>
                   Inr (if shown then (case blockType of None \<Rightarrow> 0 | Some b \<Rightarrow> b) else 0)))"

text \<open>The two loops that fill the mask of a slice.\<close>

definition buildMask :: "FaceDef \<Rightarrow> nat list \<Rightarrow> ChunkNeighbors \<Rightarrow> nat \<Rightarrow> nat list \<Rightarrow> meshError + nat list" where
  "buildMask face data nbs d msk0 =
     (let uSize = AXIS_SIZE ! axisU face; vSize = AXIS_SIZE ! axisV face
      in foldE (\<lambda>v msk.
           foldE (\<lambda>u msk.
              case maskCell face data nbs d u v of
                Inl e \<Rightarrow> Inl e
              | Inr c \<Rightarrow> Inr (msk[u + v * uSize := c]))
             [0..<uSize] msk)
          [0..<vSize] msk0)"

text \<open>The loop that extends the width of a quad along \<^verbatim>\<open>u\<close>.\<close>

function extendW :: "nat list \<Rightarrow> bool list \<Rightarrow> nat \<Rightarrow> nat \<Rightarrow> nat \<Rightarrow> nat \<Rightarrow> nat \<Rightarrow> nat" where
  "extendW msk visited uSize u v blockType w =
     (if u + w < uSize \<and> msk ! ((u + w) + v * uSize) = blockType
         \<and> \<not> visited ! ((u + w) + v * uSize)
      then extendW msk visited uSize u v blockType (w + 1)
      else w)"
  by pat_completeness auto
termination
  by (relation "measure (\<lambda>(msk, visited, uSize, u, v, blockType, w). uSize - (u + w))") auto

declare extendW.simps [simp del]

text \<open>
  The inner loop over \<^verbatim>\<open>k\<close> of the height extension sets \<^verbatim>\<open>done\<close> at the first cell of
  the row that differs or is visited: the row is accepted when every cell matches.
\<close>

definition rowMatches :: "nat list \<Rightarrow> bool list \<Rightarrow> nat \<Rightarrow> nat \<Rightarrow> nat \<Rightarrow> nat \<Rightarrow> nat \<Rightarrow> nat \<Rightarrow> bool" where
  "rowMatches msk visited uSize u v blockType w h =
     list_all (\<lambda>k. msk ! ((u + k) + (v + h) * uSize) = blockType
                    \<and> \<not> visited ! ((u + k) + (v + h) * uSize)) [0..<w]"

function extendH :: "nat list \<Rightarrow> bool list \<Rightarrow> nat \<Rightarrow> nat \<Rightarrow> nat \<Rightarrow> nat \<Rightarrow> nat \<Rightarrow> nat \<Rightarrow> nat \<Rightarrow> nat" where
  "extendH msk visited uSize vSize u v blockType w h =
     (if v + h < vSize \<and> rowMatches msk visited uSize u v blockType w h
      then extendH msk visited uSize vSize u v blockType w (h + 1)
      else h)"
  by pat_completeness auto
termination
  by (relation "measure (\<lambda>(msk, visited, uSize, vSize, u, v, blockType, w, h). vSize - (v + h))") auto

declare extendH.simps [simp del]

text \<open>The visited flags are 0 or 1 in the source, booleans here.\<close>

definition markVisited :: "nat \<Rightarrow> nat \<Rightarrow> nat \<Rightarrow> nat \<Rightarrow> nat \<Rightarrow> bool list \<Rightarrow> bool list" where
  "markVisited uSize u v w h visited0 =
     fold (\<lambda>dv visited.
        fold (\<lambda>du visited. visited[(u + du) + (v + dv) * uSize := True]) [0..<w] visited)
       [0..<h] visited0"

text \<open>
  The accumulated geometry: the four arrays and the vertex counter of the opaque
  buffer and of the water buffer. \<^verbatim>\<open>MeshData\<close> is the result without the counters.
\<close>

record MeshData =
  positions :: "rat list"
  normals :: "rat list"
  colors :: "rat list"
  indices :: "nat list"
  waterPositions :: "rat list"
  waterNormals :: "rat list"
  waterColors :: "rat list"
  waterIndices :: "nat list"

record MeshAcc = MeshData +
  vertexCount :: nat
  waterVertexCount :: nat

definition emptyAcc :: MeshAcc where
  "emptyAcc = \<lparr> positions = [], normals = [], colors = [], indices = [],
                waterPositions = [], waterNormals = [], waterColors = [], waterIndices = [],
                vertexCount = 0, waterVertexCount = 0 \<rparr>"

text \<open>
  The ambient occlusion of one corner. \<open>aoD\<close> is the coordinate along the normal axis
  of the slice in which the three neighbours are sampled.
\<close>

definition cornerAO :: "FaceDef \<Rightarrow> nat list \<Rightarrow> ChunkNeighbors \<Rightarrow> int \<Rightarrow> int \<times> int \<Rightarrow> int \<times> int \<Rightarrow> nat" where
  "cornerAO face data nbs aoD cornerUV cornerOffset =
     (let cu = fst cornerUV; cv = snd cornerUV;
          ou = fst cornerOffset; ov = snd cornerOffset;
          s1Pos = facePos face aoD (cu + ou) cv;
          s1 = isSolid (mesherGetBlock data nbs (s1Pos ! 0) (s1Pos ! 1) (s1Pos ! 2));
          s2Pos = facePos face aoD cu (cv + ov);
          s2 = isSolid (mesherGetBlock data nbs (s2Pos ! 0) (s2Pos ! 1) (s2Pos ! 2));
          cPos = facePos face aoD (cu + ou) (cv + ov);
          cr = isSolid (mesherGetBlock data nbs (cPos ! 0) (cPos ! 1) (cPos ! 2))
      in vertexAO s1 s2 cr)"

text \<open>The two triangles of a quad, by the diagonal that the occlusion values select.\<close>

definition quadIndices :: "nat list \<Rightarrow> nat \<Rightarrow> nat list" where
  "quadIndices ao n =
     (if ao ! 0 + ao ! 2 > ao ! 1 + ao ! 3
      then [n + 1, n + 2, n + 3, n + 1, n + 3, n]
      else [n, n + 1, n + 2, n, n + 2, n + 3])"

text \<open>
  The pushes of one quad onto the opaque buffer, and onto the water buffer: four
  vertices with their positions, normals and colours, six indices, and the vertex
  counter advanced by four.
\<close>

definition pushOpaque :: "rat list \<Rightarrow> rat list \<Rightarrow> rat list \<Rightarrow> nat list \<Rightarrow> MeshAcc \<Rightarrow> MeshAcc" where
  "pushOpaque vertPositions vertNormals vertColors ao acc =
     acc\<lparr> positions := positions acc @ vertPositions,
          normals := normals acc @ vertNormals,
          colors := colors acc @ vertColors,
          indices := indices acc @ quadIndices ao (vertexCount acc),
          vertexCount := vertexCount acc + 4 \<rparr>"

definition pushWater :: "rat list \<Rightarrow> rat list \<Rightarrow> rat list \<Rightarrow> nat list \<Rightarrow> MeshAcc \<Rightarrow> MeshAcc" where
  "pushWater vertPositions vertNormals vertColors ao acc =
     acc\<lparr> waterPositions := waterPositions acc @ vertPositions,
          waterNormals := waterNormals acc @ vertNormals,
          waterColors := waterColors acc @ vertColors,
          waterIndices := waterIndices acc @ quadIndices ao (waterVertexCount acc),
          waterVertexCount := waterVertexCount acc + 4 \<rparr>"

text \<open>
  The emission of the quad with base cell \<open>(u, v)\<close>, width \<open>w\<close> and height \<open>h\<close> in slice
  \<open>d\<close>: corner positions, ambient occlusion, colour, and the pushes onto the water
  buffer (with the top face lowered by 0.1) or the opaque buffer.
\<close>

definition emitQuad :: "(FaceDef \<Rightarrow> nat \<Rightarrow> int) \<Rightarrow> FaceDef \<Rightarrow> nat list \<Rightarrow> ChunkNeighbors \<Rightarrow> nat \<Rightarrow> nat \<Rightarrow> nat \<Rightarrow> nat \<Rightarrow> nat
                         \<Rightarrow> nat \<Rightarrow> MeshAcc \<Rightarrow> meshError + MeshAcc" where
  "emitQuad aoSlice face data nbs d u v w h blockType acc =
     (let isWater = (blockType = Water);
          basePos = facePos face (int d + (if faceSign face > 0 then 1 else 0)) (int u) (int v);
          uDir = [0, 0, 0][axisU face := 1];
          vDir = [0, 0, 0][axisV face := 1];
          v0 = [basePos ! 0, basePos ! 1, basePos ! 2];
          v1 = [basePos ! 0 + int w * uDir ! 0, basePos ! 1 + int w * uDir ! 1,
                basePos ! 2 + int w * uDir ! 2];
          v2 = [basePos ! 0 + int w * uDir ! 0 + int h * vDir ! 0,
                basePos ! 1 + int w * uDir ! 1 + int h * vDir ! 1,
                basePos ! 2 + int w * uDir ! 2 + int h * vDir ! 2];
          v3 = [basePos ! 0 + int h * vDir ! 0, basePos ! 1 + int h * vDir ! 1,
                basePos ! 2 + int h * vDir ! 2];
          cornerUV = [(int u, int v), (int u + int w, int v),
                      (int u + int w, int v + int h), (int u, int v + int h)];
          cornerOffsets = [(-1, -1), (0, -1), (0, 0), (-1, 0)];
          ao = map (\<lambda>c. cornerAO face data nbs (aoSlice face d) (cornerUV ! c) (cornerOffsets ! c))
                 [0..<4]
      in case getBlockColor blockType (faceIdx face) of
           Inl e \<Rightarrow> Inl e
         | Inr (cr, cg, cb) \<Rightarrow>
            (let yOffset = (if isWater \<and> faceIdx face = 2 then - (1/10) else 0 :: rat);
                 (n0, n1, n2) = faceNormal face;
                 vertPositions = concat (map (\<lambda>vert. [of_int (vert ! 0), of_int (vert ! 1) + yOffset,
                                                        of_int (vert ! 2)])
                                             [v0, v1, v2, v3]);
                 vertNormals = concat (replicate 4 [of_int n0, of_int n1, of_int n2]);
                 vertColors = concat (map (\<lambda>i. let aoFactor = AO_CURVE ! (ao ! i)
                                                 in [cr * aoFactor, cg * aoFactor, cb * aoFactor])
                                          [0..<4])
             in if isWater then Inr (pushWater vertPositions vertNormals vertColors ao acc)
                else Inr (pushOpaque vertPositions vertNormals vertColors ao acc)))"

text \<open>The body of the merge loops at cell \<open>(u, v)\<close>.\<close>

definition mergeCell :: "(FaceDef \<Rightarrow> nat \<Rightarrow> int) \<Rightarrow> FaceDef \<Rightarrow> nat list \<Rightarrow> ChunkNeighbors \<Rightarrow> nat \<Rightarrow> nat list \<Rightarrow> nat \<Rightarrow> nat
                         \<Rightarrow> bool list \<times> MeshAcc \<Rightarrow> meshError + bool list \<times> MeshAcc" where
  "mergeCell aoSlice face data nbs d msk v u st =
     (let uSize = AXIS_SIZE ! axisU face; vSize = AXIS_SIZE ! axisV face;
          visited = fst st; acc = snd st;
          idx = u + v * uSize
      in if visited ! idx \<or> msk ! idx = 0 then Inr st
         else
           (let blockType = msk ! idx;
                w = extendW msk visited uSize u v blockType 1;
                h = extendH msk visited uSize vSize u v blockType w 1;
                visited' = markVisited uSize u v w h visited
            in case emitQuad aoSlice face data nbs d u v w h blockType acc of
                 Inl e \<Rightarrow> Inl e
               | Inr acc' \<Rightarrow> Inr (visited', acc')))"

definition greedyMerge :: "(FaceDef \<Rightarrow> nat \<Rightarrow> int) \<Rightarrow> FaceDef \<Rightarrow> nat list \<Rightarrow> ChunkNeighbors \<Rightarrow> nat \<Rightarrow> nat list
                           \<Rightarrow> MeshAcc \<Rightarrow> meshError + bool list \<times> MeshAcc" where
  "greedyMerge aoSlice face data nbs d msk acc =
     (let uSize = AXIS_SIZE ! axisU face; vSize = AXIS_SIZE ! axisV face;
          visited = replicate (uSize * vSize) False
      in foldE (\<lambda>v st. foldE (\<lambda>u st. mergeCell aoSlice face data nbs d msk v u st) [0..<uSize] st)
           [0..<vSize] (visited, acc))"

text \<open>One slice: the mask is filled, then merged. The mask array is reused by the next slice.\<close>

definition meshSlice :: "(FaceDef \<Rightarrow> nat \<Rightarrow> int) \<Rightarrow> FaceDef \<Rightarrow> nat list \<Rightarrow> ChunkNeighbors \<Rightarrow> nat
                         \<Rightarrow> nat list \<times> MeshAcc \<Rightarrow> meshError + nat list \<times> MeshAcc" where
  "meshSlice aoSlice face data nbs d st =
     (case buildMask face data nbs d (fst st) of
        Inl e \<Rightarrow> Inl e
      | Inr msk \<Rightarrow>
         (case greedyMerge aoSlice face data nbs d msk (snd st) of
            Inl e \<Rightarrow> Inl e
          | Inr (visited, acc) \<Rightarrow> Inr (msk, acc)))"

definition meshFace :: "(FaceDef \<Rightarrow> nat \<Rightarrow> int) \<Rightarrow> nat list \<Rightarrow> ChunkNeighbors \<Rightarrow> FaceDef \<Rightarrow> MeshAcc \<Rightarrow> meshError + MeshAcc" where
  "meshFace aoSlice data nbs face acc =
     (let dSize = AXIS_SIZE ! axisD face;
          uSize = AXIS_SIZE ! axisU face;
          vSize = AXIS_SIZE ! axisV face;
          msk = replicate (uSize * vSize) 0
      in case foldE (\<lambda>d st. meshSlice aoSlice face data nbs d st) [0..<dSize] (msk, acc) of
           Inl e \<Rightarrow> Inl e
         | Inr (msk', acc') \<Rightarrow> Inr acc')"

text \<open>
  The mesher. The two source functions have the same text but for the slice in which
  ambient occlusion samples its neighbours, which is the parameter \<open>aoSlice\<close>.
  The result is \<open>None\<close> (\<^verbatim>\<open>null\<close>) when no vertex was emitted.
\<close>

definition mesher :: "(FaceDef \<Rightarrow> nat \<Rightarrow> int) \<Rightarrow> nat list \<Rightarrow> ChunkNeighbors \<Rightarrow> meshError + MeshData option" where
  "mesher aoSlice chunkData nbs =
     (case foldE (\<lambda>face acc. meshFace aoSlice chunkData nbs face acc) FACE_DEFS emptyAcc of
        Inl e \<Rightarrow> Inl e
      | Inr acc \<Rightarrow>
          if vertexCount acc = 0 \<and> waterVertexCount acc = 0 then Inr None
          else Inr (Some (MeshData.truncate acc)))"

text \<open>
  \<^verbatim>\<open>meshChunk\<close> of ChunkMesher.ts samples ambient occlusion in slice \<^verbatim>\<open>d\<close>; its
  arguments \<^verbatim>\<open>cx\<close>, \<^verbatim>\<open>cy\<close>, \<^verbatim>\<open>cz\<close> are not used.
\<close>

definition meshChunk :: "nat list \<Rightarrow> ChunkNeighbors \<Rightarrow> int \<Rightarrow> int \<Rightarrow> int \<Rightarrow> meshError + MeshData option" where
  "meshChunk chunkData nbs cx cy cz = mesher (\<lambda>face d. int d) chunkData nbs"

text \<open>
  \<^verbatim>\<open>meshChunkData\<close> of ChunkMeshWorker.ts samples it in slice
  \<^verbatim>\<open>d + (face.sign > 0 ? 0 : -1) + face.sign\<close>.
\<close>

definition meshChunkData :: "nat list \<Rightarrow> ChunkNeighbors \<Rightarrow> meshError + MeshData option" where
  "meshChunkData chunkData nbs =
     mesher (\<lambda>face d. int d + (if faceSign face > 0 then 0 else -1) + faceSign face) chunkData nbs"

subsection \<open>Loops of the mesher\<close>

lemma foldE_append:
  "foldE f (xs @ ys) s = (case foldE f xs s of Inl e \<Rightarrow> Inl e | Inr t \<Rightarrow> foldE f ys t)"
  by (induction xs arbitrary: s) (auto split: sum.splits)

lemma foldE_Inr:
  "(\<And>x t. x \<in> set xs \<Longrightarrow> f x t = Inr (g x t)) \<Longrightarrow> foldE f xs s = Inr (fold g xs s)"
  by (induction xs arbitrary: s) auto

lemma foldE_skip:
  "(\<And>x. x \<in> set xs \<Longrightarrow> f x s = Inr s) \<Longrightarrow> foldE f xs s = Inr s"
  by (induction xs) auto

lemma cell_index_bound:
  fixes u v uSize vSize :: nat
  assumes "u < uSize" and "v < vSize"
  shows "u + v * uSize < uSize * vSize"
proof -
  have "u + v * uSize < uSize + v * uSize" using assms(1) by simp
  also have "\<dots> = (Suc v) * uSize" by simp
  also have "\<dots> \<le> vSize * uSize" using assms(2) by (intro mult_le_mono1) simp
  finally show ?thesis by (simp add: mult.commute)
qed

lemma fill_row:
  assumes "length xs = uSize * vSize" and "v < vSize" and "k \<le> uSize"
    and "\<forall>i < v * uSize. xs ! i = c"
  shows "length (fold (\<lambda>u ys. ys[u + v * uSize := c]) [0..<k] xs) = uSize * vSize
       \<and> (\<forall>i < k + v * uSize. fold (\<lambda>u ys. ys[u + v * uSize := c]) [0..<k] xs ! i = c)"
  using assms(3)
proof (induction k)
  case 0
  then show ?case using assms by simp
next
  case (Suc k)
  then have k: "k < uSize" and IH: "length (fold (\<lambda>u ys. ys[u + v * uSize := c]) [0..<k] xs) = uSize * vSize"
     "\<forall>i < k + v * uSize. fold (\<lambda>u ys. ys[u + v * uSize := c]) [0..<k] xs ! i = c"
    by simp_all
  have b: "k + v * uSize < uSize * vSize"
    using cell_index_bound [OF k assms(2)] .
  show ?case
    using IH b by (auto simp add: nth_list_update less_Suc_eq)
qed

lemma fill_rows:
  assumes "length xs = uSize * vSize" and "k \<le> vSize"
  shows "length (fold (\<lambda>v ys. fold (\<lambda>u ys. ys[u + v * uSize := c]) [0..<uSize] ys) [0..<k] xs) = uSize * vSize
       \<and> (\<forall>i < k * uSize. fold (\<lambda>v ys. fold (\<lambda>u ys. ys[u + v * uSize := c]) [0..<uSize] ys) [0..<k] xs ! i = c)"
  using assms(2)
proof (induction k)
  case 0
  then show ?case using assms by simp
next
  case (Suc k)
  let ?ys = "fold (\<lambda>v ys. fold (\<lambda>u ys. ys[u + v * uSize := c]) [0..<uSize] ys) [0..<k] xs"
  from Suc have k: "k < vSize" and IH: "length ?ys = uSize * vSize" "\<forall>i < k * uSize. ?ys ! i = c"
    by simp_all
  from fill_row [OF IH(1) k le_refl IH(2)]
  show ?case by (simp add: add.commute)
qed

lemma fill_all:
  assumes "length xs = uSize * vSize"
  shows "fold (\<lambda>v ys. fold (\<lambda>u ys. ys[u + v * uSize := c]) [0..<uSize] ys) [0..<vSize] xs
         = replicate (uSize * vSize) c"
  using fill_rows [OF assms le_refl, of c]
  by (intro nth_equalityI) (simp_all add: mult.commute)

lemma buildMask_uniform:
  assumes cells: "\<And>u v. u < AXIS_SIZE ! axisU face \<Longrightarrow> v < AXIS_SIZE ! axisV face
                    \<Longrightarrow> maskCell face data nbs d u v = Inr c"
    and len: "length msk0 = AXIS_SIZE ! axisU face * AXIS_SIZE ! axisV face"
  shows "buildMask face data nbs d msk0
         = Inr (replicate (AXIS_SIZE ! axisU face * AXIS_SIZE ! axisV face) c)"
proof -
  let ?uS = "AXIS_SIZE ! axisU face" and ?vS = "AXIS_SIZE ! axisV face"
  have inner: "foldE (\<lambda>u msk. case maskCell face data nbs d u v of
                            Inl e \<Rightarrow> Inl e | Inr c \<Rightarrow> Inr (msk[u + v * ?uS := c])) [0..<?uS] m
               = Inr (fold (\<lambda>u ys. ys[u + v * ?uS := c]) [0..<?uS] m)"
    if "v < ?vS" for v m
    by (rule foldE_Inr) (simp add: cells that)
  have "foldE (\<lambda>v msk. foldE (\<lambda>u msk. case maskCell face data nbs d u v of
                            Inl e \<Rightarrow> Inl e | Inr c \<Rightarrow> Inr (msk[u + v * ?uS := c])) [0..<?uS] msk)
          [0..<?vS] msk0
        = Inr (fold (\<lambda>v ys. fold (\<lambda>u ys. ys[u + v * ?uS := c]) [0..<?uS] ys) [0..<?vS] msk0)"
    by (rule foldE_Inr) (simp add: inner)
  then show ?thesis
    by (simp add: buildMask_def Let_def fill_all [OF len])
qed

lemma markVisited_full:
  assumes "length visited = uSize * vSize"
  shows "markVisited uSize 0 0 uSize vSize visited = replicate (uSize * vSize) True"
  using fill_all [OF assms, of True] by (simp add: markVisited_def)

lemma extendW_full:
  assumes "\<And>k. u + k < uSize \<Longrightarrow> msk ! ((u + k) + v * uSize) = blockType
                                   \<and> \<not> visited ! ((u + k) + v * uSize)"
    and "u + w \<le> uSize"
  shows "extendW msk visited uSize u v blockType w = uSize - u"
  using assms(2)
proof (induction "uSize - (u + w)" arbitrary: w)
  case 0
  then have "\<not> u + w < uSize" and "w = uSize - u" by simp_all
  then show ?case
    by (subst extendW.simps) simp
next
  case (Suc n)
  then have lt: "u + w < uSize" by simp
  from Suc.hyps(2) have "n = uSize - (u + (w + 1))" by simp
  moreover from lt have "u + (w + 1) \<le> uSize" by simp
  ultimately have "extendW msk visited uSize u v blockType (w + 1) = uSize - u"
    by (rule Suc.hyps(1))
  with lt assms(1) [of w] show ?case
    by (subst extendW.simps) simp
qed

lemma extendH_full:
  assumes "\<And>r. v + r < vSize \<Longrightarrow> rowMatches msk visited uSize u v blockType w r"
    and "v + h \<le> vSize"
  shows "extendH msk visited uSize vSize u v blockType w h = vSize - v"
  using assms(2)
proof (induction "vSize - (v + h)" arbitrary: h)
  case 0
  then have "\<not> v + h < vSize" and "h = vSize - v" by simp_all
  then show ?case
    by (subst extendH.simps) simp
next
  case (Suc n)
  then have lt: "v + h < vSize" by simp
  from Suc.hyps(2) have "n = vSize - (v + (h + 1))" by simp
  moreover from lt have "v + (h + 1) \<le> vSize" by simp
  ultimately have "extendH msk visited uSize vSize u v blockType w (h + 1) = vSize - v"
    by (rule Suc.hyps(1))
  with lt assms(1) [of h] show ?case
    by (subst extendH.simps) simp
qed

lemma greedyMerge_zero:
  "greedyMerge aoSlice face data nbs d
     (replicate (AXIS_SIZE ! axisU face * AXIS_SIZE ! axisV face) 0) acc
   = Inr (replicate (AXIS_SIZE ! axisU face * AXIS_SIZE ! axisV face) False, acc)"
proof -
  let ?uS = "AXIS_SIZE ! axisU face" and ?vS = "AXIS_SIZE ! axisV face"
  let ?st = "(replicate (?uS * ?vS) False, acc)"
  have cell: "mergeCell aoSlice face data nbs d (replicate (?uS * ?vS) 0) v u ?st = Inr ?st"
    if "u < ?uS" "v < ?vS" for u v
    using cell_index_bound [OF that] by (simp add: mergeCell_def Let_def)
  have row: "foldE (\<lambda>u st. mergeCell aoSlice face data nbs d (replicate (?uS * ?vS) 0) v u st)
               [0..<?uS] ?st = Inr ?st" if "v < ?vS" for v
    by (rule foldE_skip) (simp add: cell that)
  have "foldE (\<lambda>v st. foldE (\<lambda>u st. mergeCell aoSlice face data nbs d (replicate (?uS * ?vS) 0) v u st)
               [0..<?uS] st) [0..<?vS] ?st = Inr ?st"
    by (rule foldE_skip) (simp add: row)
  then show ?thesis
    by (simp add: greedyMerge_def Let_def)
qed

lemma greedyMerge_full:
  assumes t: "t \<noteq> 0" and pos: "0 < AXIS_SIZE ! axisU face" "0 < AXIS_SIZE ! axisV face"
  shows "greedyMerge aoSlice face data nbs d
           (replicate (AXIS_SIZE ! axisU face * AXIS_SIZE ! axisV face) t) acc
         = (case emitQuad aoSlice face data nbs d 0 0 (AXIS_SIZE ! axisU face)
                   (AXIS_SIZE ! axisV face) t acc of
              Inl e \<Rightarrow> Inl e
            | Inr acc' \<Rightarrow> Inr (replicate (AXIS_SIZE ! axisU face * AXIS_SIZE ! axisV face) True, acc'))"
proof -
  let ?uS = "AXIS_SIZE ! axisU face" and ?vS = "AXIS_SIZE ! axisV face"
  let ?N = "?uS * ?vS"
  let ?msk = "replicate ?N t" and ?v0 = "replicate ?N False" and ?v1 = "replicate ?N True"
  let ?cell = "\<lambda>v u st. mergeCell aoSlice face data nbs d ?msk v u st"
  have N: "0 < ?N" using pos by simp
  have w: "extendW ?msk ?v0 ?uS 0 0 t (Suc 0) = ?uS"
    using extendW_full [of 0 ?uS ?msk 0 t ?v0 "Suc 0"] cell_index_bound [of _ ?uS 0 ?vS] pos
    by simp
  have rows: "rowMatches ?msk ?v0 ?uS 0 0 t ?uS r" if "r < ?vS" for r
    using cell_index_bound [of _ ?uS r ?vS] that
    by (simp add: rowMatches_def list_all_iff)
  have h: "extendH ?msk ?v0 ?uS ?vS 0 0 t ?uS (Suc 0) = ?vS"
    using extendH_full [of 0 ?vS ?msk ?v0 ?uS 0 t ?uS "Suc 0"] rows pos
    by simp
  have first: "?cell 0 0 (?v0, acc)
     = (case emitQuad aoSlice face data nbs d 0 0 ?uS ?vS t acc of
          Inl e \<Rightarrow> Inl e | Inr acc' \<Rightarrow> Inr (?v1, acc'))"
    using N t by (simp add: mergeCell_def Let_def w h markVisited_full cong: sum.case_cong)
  have skip: "?cell v u (?v1, a) = Inr (?v1, a)" if "u < ?uS" "v < ?vS" for u v a
    using cell_index_bound [OF that] by (simp add: mergeCell_def Let_def)
  have skipRow: "foldE (\<lambda>u st. ?cell v u st) us (?v1, a) = Inr (?v1, a)"
    if "v < ?vS" "set us \<subseteq> {..<?uS}" for v us a
    using that by (intro foldE_skip skip) auto
  have skipRows: "foldE (\<lambda>v st. foldE (\<lambda>u st. ?cell v u st) [0..<?uS] st) vs (?v1, a) = Inr (?v1, a)"
    if "set vs \<subseteq> {..<?vS}" for vs a
    using that by (intro foldE_skip skipRow) auto
  have uS: "[0..<?uS] = 0 # [Suc 0..<?uS]" and vS: "[0..<?vS] = 0 # [Suc 0..<?vS]"
    using pos by (simp_all add: upt_conv_Cons)
  have restU: "foldE (\<lambda>u st. ?cell 0 u st) [Suc 0..<?uS] (?v1, a) = Inr (?v1, a)" for a
    using pos by (intro skipRow) auto
  have restV: "foldE (\<lambda>v st. foldE (\<lambda>u st. ?cell v u st) [0..<?uS] st) [Suc 0..<?vS] (?v1, a)
               = Inr (?v1, a)" for a
    by (intro skipRows) auto
  have row0: "foldE (\<lambda>u st. ?cell 0 u st) [0..<?uS] (?v0, acc)
     = (case emitQuad aoSlice face data nbs d 0 0 ?uS ?vS t acc of
          Inl e \<Rightarrow> Inl e | Inr acc' \<Rightarrow> Inr (?v1, acc'))"
  proof (cases "emitQuad aoSlice face data nbs d 0 0 ?uS ?vS t acc")
    case (Inl e)
    then show ?thesis
      by (subst uS) (simp only: foldE.simps first sum.case)
  next
    case (Inr acc')
    then show ?thesis
      by (subst uS) (simp only: foldE.simps first sum.case restU)
  qed
  have "foldE (\<lambda>v st. foldE (\<lambda>u st. ?cell v u st) [0..<?uS] st) [0..<?vS] (?v0, acc)
     = (case emitQuad aoSlice face data nbs d 0 0 ?uS ?vS t acc of
          Inl e \<Rightarrow> Inl e | Inr acc' \<Rightarrow> Inr (?v1, acc'))"
  proof (cases "emitQuad aoSlice face data nbs d 0 0 ?uS ?vS t acc")
    case (Inl e)
    then show ?thesis
      by (subst vS) (simp only: foldE.simps row0 sum.case)
  next
    case (Inr acc')
    then show ?thesis
      by (subst vS) (simp only: foldE.simps row0 sum.case restV)
  qed
  then show ?thesis
    by (simp add: greedyMerge_def Let_def)
qed

lemma meshSlice_uniform:
  assumes cells: "\<And>u v. u < AXIS_SIZE ! axisU face \<Longrightarrow> v < AXIS_SIZE ! axisV face
                    \<Longrightarrow> maskCell face data nbs d u v = Inr c"
    and len: "length m = AXIS_SIZE ! axisU face * AXIS_SIZE ! axisV face"
    and pos: "0 < AXIS_SIZE ! axisU face" "0 < AXIS_SIZE ! axisV face"
  shows "meshSlice aoSlice face data nbs d (m, acc)
         = (if c = 0 then Inr (replicate (AXIS_SIZE ! axisU face * AXIS_SIZE ! axisV face) 0, acc)
            else case emitQuad aoSlice face data nbs d 0 0 (AXIS_SIZE ! axisU face)
                        (AXIS_SIZE ! axisV face) c acc of
                   Inl e \<Rightarrow> Inl e
                 | Inr acc' \<Rightarrow> Inr (replicate (AXIS_SIZE ! axisU face * AXIS_SIZE ! axisV face) c, acc'))"
proof (cases "c = 0")
  case True
  then show ?thesis
    using buildMask_uniform [of face data nbs d c m, OF cells len]
    by (simp add: meshSlice_def greedyMerge_zero)
next
  case False
  then show ?thesis
    using buildMask_uniform [of face data nbs d c m, OF cells len]
      greedyMerge_full [OF False pos, of aoSlice data nbs d acc]
    by (simp add: meshSlice_def split: sum.splits)
qed

lemma foldE_keeps_acc:
  assumes "\<And>x m. x \<in> set xs \<Longrightarrow> length m = N \<Longrightarrow> \<exists>m'. f x (m, a) = Inr (m', a) \<and> length m' = N"
    and "length m = N"
  shows "\<exists>m'. foldE f xs (m, a) = Inr (m', a) \<and> length m' = N"
  using assms
proof (induction xs arbitrary: m)
  case Nil
  then show ?case by simp
next
  case (Cons x xs)
  from Cons.prems(1) [of x m] Cons.prems(2)
  obtain m1 where m1: "f x (m, a) = Inr (m1, a)" "length m1 = N" by auto
  from Cons.IH [of m1] Cons.prems(1) m1(2)
  obtain m2 where "foldE f xs (m1, a) = Inr (m2, a)" "length m2 = N" by auto
  with m1 show ?case by simp
qed

lemma meshFace_single:
  assumes cells: "\<And>d u v. d < AXIS_SIZE ! axisD face \<Longrightarrow> u < AXIS_SIZE ! axisU face
                      \<Longrightarrow> v < AXIS_SIZE ! axisV face
                      \<Longrightarrow> maskCell face data nbs d u v = Inr (if d = dB then t else 0)"
    and dB: "dB < AXIS_SIZE ! axisD face"
    and pos: "0 < AXIS_SIZE ! axisU face" "0 < AXIS_SIZE ! axisV face"
  shows "meshFace aoSlice data nbs face acc
         = (if t = 0 then Inr acc
            else emitQuad aoSlice face data nbs dB 0 0 (AXIS_SIZE ! axisU face)
                   (AXIS_SIZE ! axisV face) t acc)"
proof -
  let ?dS = "AXIS_SIZE ! axisD face" and ?uS = "AXIS_SIZE ! axisU face"
    and ?vS = "AXIS_SIZE ! axisV face"
  let ?N = "?uS * ?vS"
  let ?f = "\<lambda>d st. meshSlice aoSlice face data nbs d st"
  have other: "\<exists>m'. ?f d (m, a) = Inr (m', a) \<and> length m' = ?N"
    if "d < ?dS" "d \<noteq> dB" "length m = ?N" for d m a
    using meshSlice_uniform [of face data nbs d 0 m aoSlice a] cells [OF that(1)] that pos
    by simp
  have zero: "\<exists>m'. ?f d (m, a) = Inr (m', a) \<and> length m' = ?N"
    if "d < ?dS" "t = 0" "length m = ?N" for d m a
    using meshSlice_uniform [of face data nbs d 0 m aoSlice a] cells [OF that(1)] that pos
    by simp
  have split: "[0..<?dS] = [0..<dB] @ dB # [Suc dB..<?dS]"
  proof -
    have "[0..<?dS] = [0..<dB] @ [dB..<?dS]"
      using dB upt_add_eq_append [of 0 dB "?dS - dB"] by simp
    also have "[dB..<?dS] = dB # [Suc dB..<?dS]"
      using dB by (rule upt_conv_Cons)
    finally show ?thesis .
  qed
  show ?thesis
  proof (cases "t = 0")
    case True
    have "\<exists>m'. foldE ?f [0..<?dS] (replicate ?N 0, acc) = Inr (m', acc) \<and> length m' = ?N"
      by (rule foldE_keeps_acc) (use zero True in auto)
    with True show ?thesis
      by (auto simp add: meshFace_def Let_def)
  next
    case False
    have "\<exists>m'. foldE ?f [0..<dB] (replicate ?N 0, acc) = Inr (m', acc) \<and> length m' = ?N"
      by (rule foldE_keeps_acc) (use other dB in auto)
    then obtain m1 where m1: "foldE ?f [0..<dB] (replicate ?N 0, acc) = Inr (m1, acc)"
      "length m1 = ?N" by auto
    have at: "?f dB (m1, acc)
       = (case emitQuad aoSlice face data nbs dB 0 0 ?uS ?vS t acc of
            Inl e \<Rightarrow> Inl e | Inr acc' \<Rightarrow> Inr (replicate ?N t, acc'))"
      using meshSlice_uniform [of face data nbs dB t m1 aoSlice acc] cells [OF dB] m1(2) pos False
      by simp
    show ?thesis
    proof (cases "emitQuad aoSlice face data nbs dB 0 0 ?uS ?vS t acc")
      case (Inl e)
      with False m1 at show ?thesis
        by (cases e) (simp add: meshFace_def Let_def split foldE_append)
    next
      case (Inr acc1)
      have "\<exists>m'. foldE ?f [Suc dB..<?dS] (replicate ?N t, acc1) = Inr (m', acc1) \<and> length m' = ?N"
        by (rule foldE_keeps_acc) (use other in auto)
      then obtain m2 where "foldE ?f [Suc dB..<?dS] (replicate ?N t, acc1) = Inr (m2, acc1)"
        by auto
      with Inr False m1 at show ?thesis
        by (simp add: meshFace_def Let_def split foldE_append)
    qed
  qed
qed

subsection \<open>Properties of the mesher on uniform grids\<close>

text \<open>
  A grid whose 32768 cells hold one block type; the neighbour grid that lies in the
  direction of a face; the slice of the chunk that touches that neighbour; and names
  for the six entries of \<open>FACE_DEFS\<close>.
\<close>

definition uniformGrid :: "nat \<Rightarrow> nat list" where
  "uniformGrid t = replicate 32768 t"

definition faceNeighbor :: "ChunkNeighbors \<Rightarrow> FaceDef \<Rightarrow> nat list option" where
  "faceNeighbor nbs face = [px nbs, nx nbs, py nbs, ny nbs, pz nbs, nz nbs] ! faceIdx face"

definition boundarySlice :: "FaceDef \<Rightarrow> nat" where
  "boundarySlice face = (if faceSign face > 0 then 31 else 0)"

lemma u8get_uniformGrid: "0 \<le> i \<Longrightarrow> i < 32768 \<Longrightarrow> u8get (uniformGrid t) i = Some t"
  by (simp add: u8get_def uniformGrid_def)

lemma blockIndex_range:
  "0 \<le> x \<Longrightarrow> x < 32 \<Longrightarrow> 0 \<le> y \<Longrightarrow> y < 32 \<Longrightarrow> 0 \<le> z \<Longrightarrow> z < 32
   \<Longrightarrow> 0 \<le> blockIndex x y z \<and> blockIndex x y z < 32768"
  by (simp add: blockIndex_def CHUNK_SIZE_def)

lemma u8get_uniformGrid_cell:
  "0 \<le> x \<Longrightarrow> x < 32 \<Longrightarrow> 0 \<le> y \<Longrightarrow> y < 32 \<Longrightarrow> 0 \<le> z \<Longrightarrow> z < 32
   \<Longrightarrow> u8get (uniformGrid t) (blockIndex x y z) = Some t"
  using blockIndex_range [of x y z] by (simp add: u8get_uniformGrid)

lemma mesherGetBlock_inside:
  "0 \<le> x \<Longrightarrow> x < 32 \<Longrightarrow> 0 \<le> y \<Longrightarrow> y < 32 \<Longrightarrow> 0 \<le> z \<Longrightarrow> z < 32
   \<Longrightarrow> mesherGetBlock (uniformGrid t) nbs x y z = Some t"
  by (simp add: mesherGetBlock_def CHUNK_SIZE_def CHUNK_HEIGHT_def u8get_uniformGrid_cell)

lemma AXIS_SIZE_face:
  "face \<in> set FACE_DEFS \<Longrightarrow>
     AXIS_SIZE ! axisD face = 32 \<and> AXIS_SIZE ! axisU face = 32 \<and> AXIS_SIZE ! axisV face = 32"
  by (auto simp add: FACE_DEFS_def AXIS_SIZE_def CHUNK_SIZE_def CHUNK_HEIGHT_def)

lemma shouldShowFace_same:
  "t \<noteq> Air \<Longrightarrow> BLOCK_PROPERTIES t = Some props \<Longrightarrow> shouldShowFace (Some t) (Some t) = Inr False"
  by (simp add: shouldShowFace_def)


definition facePX :: FaceDef where
  "facePX = \<lparr> axisD = 0, axisU = 2, axisV = 1, faceSign = 1, faceIdx = 0, faceNormal = (1, 0, 0) \<rparr>"

definition faceNX :: FaceDef where
  "faceNX = \<lparr> axisD = 0, axisU = 2, axisV = 1, faceSign = -1, faceIdx = 1, faceNormal = (-1, 0, 0) \<rparr>"

definition facePY :: FaceDef where
  "facePY = \<lparr> axisD = 1, axisU = 0, axisV = 2, faceSign = 1, faceIdx = 2, faceNormal = (0, 1, 0) \<rparr>"

definition faceNY :: FaceDef where
  "faceNY = \<lparr> axisD = 1, axisU = 0, axisV = 2, faceSign = -1, faceIdx = 3, faceNormal = (0, -1, 0) \<rparr>"

definition facePZ :: FaceDef where
  "facePZ = \<lparr> axisD = 2, axisU = 0, axisV = 1, faceSign = 1, faceIdx = 4, faceNormal = (0, 0, 1) \<rparr>"

definition faceNZ :: FaceDef where
  "faceNZ = \<lparr> axisD = 2, axisU = 0, axisV = 1, faceSign = -1, faceIdx = 5, faceNormal = (0, 0, -1) \<rparr>"

lemmas face_defs = facePX_def faceNX_def facePY_def faceNY_def facePZ_def faceNZ_def

lemma FACE_DEFS_names: "FACE_DEFS = [facePX, faceNX, facePY, faceNY, facePZ, faceNZ]"
  by (simp add: FACE_DEFS_def face_defs)

lemma FACE_DEFS_cases:
  assumes "face \<in> set FACE_DEFS"
  obtains "face = facePX" | "face = faceNX" | "face = facePY"
        | "face = faceNY" | "face = facePZ" | "face = faceNZ"
  using assms by (auto simp add: FACE_DEFS_names)

lemma maskCell_uniform_interior:
  assumes "face \<in> set FACE_DEFS" and "d < 32" and "u < 32" and "v < 32"
    and "d \<noteq> boundarySlice face" and "t \<noteq> Air" and "BLOCK_PROPERTIES t = Some props"
  shows "maskCell face (uniformGrid t) nbs d u v = Inr 0"
  using assms(1)
  by (cases rule: FACE_DEFS_cases)
     (use assms(2-) in \<open>simp_all add: face_defs maskCell_def facePos_def Let_def boundarySlice_def
        u8get_uniformGrid_cell mesherGetBlock_inside shouldShowFace_same\<close>)

lemma maskCell_uniform_absent:
  assumes "face \<in> set FACE_DEFS" and "u < 32" and "v < 32"
    and "faceNeighbor nbs face = None" and "t \<noteq> Air"
  shows "maskCell face (uniformGrid t) nbs (boundarySlice face) u v = Inr t"
  using assms(1)
  by (cases rule: FACE_DEFS_cases)
     (use assms(2-) in \<open>simp_all add: face_defs maskCell_def facePos_def Let_def boundarySlice_def
        u8get_uniformGrid_cell mesherGetBlock_def CHUNK_SIZE_def CHUNK_HEIGHT_def
        faceNeighbor_def shouldShowFace_def\<close>)

lemma maskCell_uniform_present:
  assumes "face \<in> set FACE_DEFS" and "u < 32" and "v < 32"
    and "faceNeighbor nbs face = Some (uniformGrid n)" and "t \<noteq> Air"
  shows "maskCell face (uniformGrid t) nbs (boundarySlice face) u v
         = (case shouldShowFace (Some t) (Some n) of
              Inl e \<Rightarrow> Inl e | Inr shown \<Rightarrow> Inr (if shown then t else 0))"
  using assms(1)
  by (cases rule: FACE_DEFS_cases)
     (use assms(2-) in \<open>simp_all add: face_defs maskCell_def facePos_def Let_def boundarySlice_def
        u8get_uniformGrid_cell mesherGetBlock_def CHUNK_SIZE_def CHUNK_HEIGHT_def
        faceNeighbor_def cong: sum.case_cong if_cong\<close>)

lemma meshFace_uniform:
  assumes face: "face \<in> set FACE_DEFS" and t: "t \<noteq> Air" and props: "BLOCK_PROPERTIES t = Some props"
    and b: "\<And>u v. u < 32 \<Longrightarrow> v < 32 \<Longrightarrow> maskCell face (uniformGrid t) nbs (boundarySlice face) u v = Inr b"
  shows "meshFace aoSlice (uniformGrid t) nbs face acc
         = (if b = 0 then Inr acc
            else emitQuad aoSlice face (uniformGrid t) nbs (boundarySlice face) 0 0 32 32 b acc)"
proof -
  note sz = AXIS_SIZE_face [OF face]
  have cells: "maskCell face (uniformGrid t) nbs d u v = Inr (if d = boundarySlice face then b else 0)"
    if "d < AXIS_SIZE ! axisD face" "u < AXIS_SIZE ! axisU face" "v < AXIS_SIZE ! axisV face" for d u v
    using that sz b maskCell_uniform_interior [OF face _ _ _ _ t props, of d u v nbs]
    by simp
  have dB: "boundarySlice face < AXIS_SIZE ! axisD face"
    using sz by (simp add: boundarySlice_def)
  show ?thesis
    using meshFace_single [of face "uniformGrid t" nbs "boundarySlice face" b aoSlice acc, OF cells dB] sz
    by simp
qed

lemma u8get_uniformGrid_if:
  "u8get (uniformGrid t) i = (if 0 \<le> i \<and> i < 32768 then Some t else None)"
  by (auto simp add: u8get_def uniformGrid_def)

lemma faceNeighbor_noNeighbors: "faceNeighbor noNeighbors face = None" if "face \<in> set FACE_DEFS"
  using that by (cases rule: FACE_DEFS_cases) (simp_all add: faceNeighbor_def noNeighbors_def face_defs)

lemma meshFace_noNeighbors:
  assumes "face \<in> set FACE_DEFS" and "t \<noteq> Air" and "BLOCK_PROPERTIES t = Some props"
  shows "meshFace aoSlice (uniformGrid t) noNeighbors face acc
         = emitQuad aoSlice face (uniformGrid t) noNeighbors (boundarySlice face) 0 0 32 32 t acc"
  using meshFace_uniform [OF assms, of noNeighbors t aoSlice acc]
    maskCell_uniform_absent [OF assms(1) _ _ faceNeighbor_noNeighbors [OF assms(1)] assms(2)]
    assms(2)
  by (simp add: Air_def)

text \<open>The colour components of a block type on the face of a given index.\<close>

definition faceColorList :: "nat \<Rightarrow> nat \<Rightarrow> rat list" where
  "faceColorList t k = (case getBlockColor t k of Inl e \<Rightarrow> [] | Inr (r, g, b) \<Rightarrow> [r, g, b])"

lemmas emit_eval =
  emitQuad_def face_defs boundarySlice_def facePos_def Let_def cornerAO_def
  mesherGetBlock_def CHUNK_SIZE_def CHUNK_HEIGHT_def isSolid_def vertexAO_def
  quadIndices_def AO_CURVE_def upt_conv_Cons u8get_uniformGrid_if blockIndex_def

lemma getBlockColor_total:
  assumes "BLOCK_PROPERTIES t = Some props"
  obtains r g b where "getBlockColor t k = Inr (r, g, b)" and "faceColorList t k = [r, g, b]"
proof -
  have "getBlockColor t k =
          Inr (if k = 2 \<and> colorTop props \<noteq> None then the (colorTop props)
               else if k = 3 \<and> colorBottom props \<noteq> None then the (colorBottom props)
               else color props)"
    using assms by (auto simp add: getBlockColor_def)
  then obtain c where c: "getBlockColor t k = Inr c" by blast
  obtain r g b where "c = (r, g, b)" by (cases c)
  with c show ?thesis
    using that by (simp add: faceColorList_def)
qed

lemmas emit_eval_no = emit_eval noNeighbors_def Air_def BLOCK_PROPERTIES_def mkProps_def

lemma emit_facePX:
  assumes "getBlockColor t (faceIdx facePX) = Inr (r, g, b)" and "t \<noteq> Water"
  shows "emitQuad (\<lambda>face d. int d) facePX (uniformGrid t) noNeighbors (boundarySlice facePX) 0 0 32 32 t acc
         = Inr (pushOpaque [32, 0, 0, 32, 0, 32, 32, 32, 32, 32, 32, 0]
              (concat (replicate 4 [1, 0, 0]))
              [r, g, b, r, g, b, r, g, b, r, g, b] [3, 3, 3, 3] acc)"
  using assms by (simp add: emit_eval_no)

lemma emit_faceNX:
  assumes "getBlockColor t (faceIdx faceNX) = Inr (r, g, b)" and "t \<noteq> Water"
  shows "emitQuad (\<lambda>face d. int d) faceNX (uniformGrid t) noNeighbors (boundarySlice faceNX) 0 0 32 32 t acc
         = Inr (pushOpaque [0, 0, 0, 0, 0, 32, 0, 32, 32, 0, 32, 0]
              (concat (replicate 4 [- 1, 0, 0]))
              [r, g, b, r, g, b, r, g, b, r, g, b] [3, 3, 3, 3] acc)"
  using assms by (simp add: emit_eval_no)

lemma emit_facePY:
  assumes "getBlockColor t (faceIdx facePY) = Inr (r, g, b)" and "t \<noteq> Water"
  shows "emitQuad (\<lambda>face d. int d) facePY (uniformGrid t) noNeighbors (boundarySlice facePY) 0 0 32 32 t acc
         = Inr (pushOpaque [0, 32, 0, 32, 32, 0, 32, 32, 32, 0, 32, 32]
              (concat (replicate 4 [0, 1, 0]))
              [r, g, b, r, g, b, r, g, b, r, g, b] [3, 3, 3, 3] acc)"
  using assms by (simp add: emit_eval_no)

lemma emit_faceNY:
  assumes "getBlockColor t (faceIdx faceNY) = Inr (r, g, b)" and "t \<noteq> Water"
  shows "emitQuad (\<lambda>face d. int d) faceNY (uniformGrid t) noNeighbors (boundarySlice faceNY) 0 0 32 32 t acc
         = Inr (pushOpaque [0, 0, 0, 32, 0, 0, 32, 0, 32, 0, 0, 32]
              (concat (replicate 4 [0, - 1, 0]))
              [r, g, b, r, g, b, r, g, b, r, g, b] [3, 3, 3, 3] acc)"
  using assms by (simp add: emit_eval_no)

lemma emit_facePZ:
  assumes "getBlockColor t (faceIdx facePZ) = Inr (r, g, b)" and "t \<noteq> Water"
  shows "emitQuad (\<lambda>face d. int d) facePZ (uniformGrid t) noNeighbors (boundarySlice facePZ) 0 0 32 32 t acc
         = Inr (pushOpaque [0, 0, 32, 32, 0, 32, 32, 32, 32, 0, 32, 32]
              (concat (replicate 4 [0, 0, 1]))
              [r, g, b, r, g, b, r, g, b, r, g, b] [3, 3, 3, 3] acc)"
  using assms by (simp add: emit_eval_no)

lemma emit_faceNZ:
  assumes "getBlockColor t (faceIdx faceNZ) = Inr (r, g, b)" and "t \<noteq> Water"
  shows "emitQuad (\<lambda>face d. int d) faceNZ (uniformGrid t) noNeighbors (boundarySlice faceNZ) 0 0 32 32 t acc
         = Inr (pushOpaque [0, 0, 0, 32, 0, 0, 32, 32, 0, 0, 32, 0]
              (concat (replicate 4 [0, 0, - 1]))
              [r, g, b, r, g, b, r, g, b, r, g, b] [3, 3, 3, 3] acc)"
  using assms by (simp add: emit_eval_no)


lemma faceIdx_names:
  "faceIdx facePX = 0" "faceIdx faceNX = 1" "faceIdx facePY = 2"
  "faceIdx faceNY = 3" "faceIdx facePZ = 4" "faceIdx faceNZ = 5"
  by (simp_all add: face_defs)

text \<open>
  Claim C5. For a chunk whose 32768 cells hold one opaque block type, meshed with all
  six neighbour grids absent, \<open>meshChunk\<close> returns exactly six opaque quads (24
  vertices, 36 indices), one per face of the chunk and each spanning the whole
  \<open>32 \<times> 32\<close> face, every corner at full brightness, and no water geometry.
\<close>

theorem meshChunk_uniform_opaque:
  assumes props: "BLOCK_PROPERTIES t = Some props" and opaque: "\<not> transparent props"
  shows "meshChunk (uniformGrid t) noNeighbors cx cy cz = Inr (Some
     \<lparr> positions =
         [32, 0, 0,  32, 0, 32,  32, 32, 32,  32, 32, 0,
          0, 0, 0,  0, 0, 32,  0, 32, 32,  0, 32, 0,
          0, 32, 0,  32, 32, 0,  32, 32, 32,  0, 32, 32,
          0, 0, 0,  32, 0, 0,  32, 0, 32,  0, 0, 32,
          0, 0, 32,  32, 0, 32,  32, 32, 32,  0, 32, 32,
          0, 0, 0,  32, 0, 0,  32, 32, 0,  0, 32, 0],
       normals =
         concat (map (\<lambda>n. concat (replicate 4 n))
           [[1, 0, 0], [-1, 0, 0], [0, 1, 0], [0, -1, 0], [0, 0, 1], [0, 0, -1]]),
       colors = concat (map (\<lambda>k. concat (replicate 4 (faceColorList t k))) [0, 1, 2, 3, 4, 5]),
       indices =
         [0, 1, 2, 0, 2, 3,  4, 5, 6, 4, 6, 7,  8, 9, 10, 8, 10, 11,
          12, 13, 14, 12, 14, 15,  16, 17, 18, 16, 18, 19,  20, 21, 22, 20, 22, 23],
       waterPositions = [], waterNormals = [], waterColors = [], waterIndices = [] \<rparr>)"
proof -
  have air: "t \<noteq> Air" and water: "t \<noteq> Water"
    using props opaque by (auto simp add: BLOCK_PROPERTIES_def Air_def Water_def mkProps_def split: if_splits)
  obtain r0 g0 b0 where c0: "getBlockColor t (faceIdx facePX) = Inr (r0, g0, b0)" "faceColorList t 0 = [r0, g0, b0]"
    using getBlockColor_total [OF props, of 0] by (auto simp add: faceIdx_names)
  obtain r1 g1 b1 where c1: "getBlockColor t (faceIdx faceNX) = Inr (r1, g1, b1)" "faceColorList t (Suc 0) = [r1, g1, b1]"
    using getBlockColor_total [OF props, of "Suc 0"] by (auto simp add: faceIdx_names)
  obtain r2 g2 b2 where c2: "getBlockColor t (faceIdx facePY) = Inr (r2, g2, b2)" "faceColorList t 2 = [r2, g2, b2]"
    using getBlockColor_total [OF props, of 2] by (auto simp add: faceIdx_names)
  obtain r3 g3 b3 where c3: "getBlockColor t (faceIdx faceNY) = Inr (r3, g3, b3)" "faceColorList t 3 = [r3, g3, b3]"
    using getBlockColor_total [OF props, of 3] by (auto simp add: faceIdx_names)
  obtain r4 g4 b4 where c4: "getBlockColor t (faceIdx facePZ) = Inr (r4, g4, b4)" "faceColorList t 4 = [r4, g4, b4]"
    using getBlockColor_total [OF props, of 4] by (auto simp add: faceIdx_names)
  obtain r5 g5 b5 where c5: "getBlockColor t (faceIdx faceNZ) = Inr (r5, g5, b5)" "faceColorList t 5 = [r5, g5, b5]"
    using getBlockColor_total [OF props, of 5] by (auto simp add: faceIdx_names)
  have faces: "facePX \<in> set FACE_DEFS" "faceNX \<in> set FACE_DEFS" "facePY \<in> set FACE_DEFS"
    "faceNY \<in> set FACE_DEFS" "facePZ \<in> set FACE_DEFS" "faceNZ \<in> set FACE_DEFS"
    by (simp_all add: FACE_DEFS_names)
  note mf = faces [THEN meshFace_noNeighbors [OF _ air props]]
  note em = emit_facePX [OF c0(1) water] emit_faceNX [OF c1(1) water] emit_facePY [OF c2(1) water]
    emit_faceNY [OF c3(1) water] emit_facePZ [OF c4(1) water] emit_faceNZ [OF c5(1) water]
  have rep4: "replicate 4 x = [x, x, x, x]" for x :: "rat list"
    by (simp add: numeral_eq_Suc)
  have chain: "foldE (\<lambda>face acc. meshFace (\<lambda>face d. int d) (uniformGrid t) noNeighbors face acc) FACE_DEFS emptyAcc
        = Inr (pushOpaque [0, 0, 0, 32, 0, 0, 32, 32, 0, 0, 32, 0]
                 (concat (replicate 4 [0, 0, - 1])) [r5, g5, b5, r5, g5, b5, r5, g5, b5, r5, g5, b5] [3, 3, 3, 3]
              (pushOpaque [0, 0, 32, 32, 0, 32, 32, 32, 32, 0, 32, 32]
                 (concat (replicate 4 [0, 0, 1])) [r4, g4, b4, r4, g4, b4, r4, g4, b4, r4, g4, b4] [3, 3, 3, 3]
              (pushOpaque [0, 0, 0, 32, 0, 0, 32, 0, 32, 0, 0, 32]
                 (concat (replicate 4 [0, - 1, 0])) [r3, g3, b3, r3, g3, b3, r3, g3, b3, r3, g3, b3] [3, 3, 3, 3]
              (pushOpaque [0, 32, 0, 32, 32, 0, 32, 32, 32, 0, 32, 32]
                 (concat (replicate 4 [0, 1, 0])) [r2, g2, b2, r2, g2, b2, r2, g2, b2, r2, g2, b2] [3, 3, 3, 3]
              (pushOpaque [0, 0, 0, 0, 0, 32, 0, 32, 32, 0, 32, 0]
                 (concat (replicate 4 [- 1, 0, 0])) [r1, g1, b1, r1, g1, b1, r1, g1, b1, r1, g1, b1] [3, 3, 3, 3]
              (pushOpaque [32, 0, 0, 32, 0, 32, 32, 32, 32, 32, 32, 0]
                 (concat (replicate 4 [1, 0, 0])) [r0, g0, b0, r0, g0, b0, r0, g0, b0, r0, g0, b0] [3, 3, 3, 3]
               emptyAcc))))))"
    by (simp add: FACE_DEFS_names mf em)
  show ?thesis
    unfolding meshChunk_def mesher_def chain
    by (simp add: pushOpaque_def emptyAcc_def quadIndices_def
        MeshData.truncate_def c0(2) c1(2) c2(2) c3(2) c4(2) c5(2) rep4)
qed

theorem meshChunk_uniform_opaque_witness:
  "BLOCK_PROPERTIES Stone = Some (mkProps ''Stone'' (5/10, 5/10, 5/10) False True)
   \<and> \<not> transparent (mkProps ''Stone'' (5/10, 5/10, 5/10) False True)
   \<and> map_sum id (map_option indices) (meshChunk (uniformGrid Stone) noNeighbors 0 0 0)
       = Inr (Some [0, 1, 2, 0, 2, 3,  4, 5, 6, 4, 6, 7,  8, 9, 10, 8, 10, 11,
                    12, 13, 14, 12, 14, 15,  16, 17, 18, 16, 18, 19,  20, 21, 22, 20, 22, 23])
   \<and> map_sum id (map_option waterIndices) (meshChunk (uniformGrid Stone) noNeighbors 0 0 0)
       = Inr (Some [])"
proof -
  have p: "BLOCK_PROPERTIES Stone = Some (mkProps ''Stone'' (5/10, 5/10, 5/10) False True)"
    by (simp add: BLOCK_PROPERTIES_def Stone_def)
  have o: "\<not> transparent (mkProps ''Stone'' (5/10, 5/10, 5/10) False True)"
    by (simp add: mkProps_def)
  show ?thesis
    using p o meshChunk_uniform_opaque [OF p o, of 0 0 0] by simp
qed

text \<open>
  A neighbourhood for a chunk of stone: the neighbour at \<open>+x\<close> is air, the neighbour at
  \<open>+z\<close> is stone, the others are absent.
\<close>

definition bugNeighbors :: ChunkNeighbors where
  "bugNeighbors = \<lparr> px = Some (uniformGrid Air), nx = None, py = None, ny = None,
                     pz = Some (uniformGrid Stone), nz = None \<rparr>"

lemmas emit_eval_bug = emit_eval bugNeighbors_def Air_def Stone_def Water_def BLOCK_PROPERTIES_def
  mkProps_def getBlockColor_def

lemma meshFace_bug:
  "meshFace aoSlice (uniformGrid Stone) bugNeighbors facePX acc
     = emitQuad aoSlice facePX (uniformGrid Stone) bugNeighbors (boundarySlice facePX) 0 0 32 32 Stone acc"
  "meshFace aoSlice (uniformGrid Stone) bugNeighbors faceNX acc
     = emitQuad aoSlice faceNX (uniformGrid Stone) bugNeighbors (boundarySlice faceNX) 0 0 32 32 Stone acc"
  "meshFace aoSlice (uniformGrid Stone) bugNeighbors facePY acc
     = emitQuad aoSlice facePY (uniformGrid Stone) bugNeighbors (boundarySlice facePY) 0 0 32 32 Stone acc"
  "meshFace aoSlice (uniformGrid Stone) bugNeighbors faceNY acc
     = emitQuad aoSlice faceNY (uniformGrid Stone) bugNeighbors (boundarySlice faceNY) 0 0 32 32 Stone acc"
  "meshFace aoSlice (uniformGrid Stone) bugNeighbors facePZ acc = Inr acc"
  "meshFace aoSlice (uniformGrid Stone) bugNeighbors faceNZ acc
     = emitQuad aoSlice faceNZ (uniformGrid Stone) bugNeighbors (boundarySlice faceNZ) 0 0 32 32 Stone acc"
proof -
  have faces: "facePX \<in> set FACE_DEFS" "faceNX \<in> set FACE_DEFS" "facePY \<in> set FACE_DEFS"
    "faceNY \<in> set FACE_DEFS" "facePZ \<in> set FACE_DEFS" "faceNZ \<in> set FACE_DEFS"
    by (simp_all add: FACE_DEFS_names)
  have stone: "Stone \<noteq> Air" "BLOCK_PROPERTIES Stone = Some (mkProps ''Stone'' (5/10, 5/10, 5/10) False True)"
    by (simp_all add: Stone_def Air_def BLOCK_PROPERTIES_def)
  have nb: "faceNeighbor bugNeighbors facePX = Some (uniformGrid Air)"
    "faceNeighbor bugNeighbors faceNX = None" "faceNeighbor bugNeighbors facePY = None"
    "faceNeighbor bugNeighbors faceNY = None" "faceNeighbor bugNeighbors facePZ = Some (uniformGrid Stone)"
    "faceNeighbor bugNeighbors faceNZ = None"
    by (simp_all add: faceNeighbor_def bugNeighbors_def face_defs)
  have show1: "shouldShowFace (Some Stone) (Some Air) = Inr True"
    and show2: "shouldShowFace (Some Stone) (Some Stone) = Inr False"
    by (simp_all add: shouldShowFace_def Stone_def Air_def BLOCK_PROPERTIES_def mkProps_def)
  have s0: "Stone \<noteq> 0" by (simp add: Stone_def)
  show "meshFace aoSlice (uniformGrid Stone) bugNeighbors facePX acc
     = emitQuad aoSlice facePX (uniformGrid Stone) bugNeighbors (boundarySlice facePX) 0 0 32 32 Stone acc"
    using meshFace_uniform [OF faces(1) stone, of bugNeighbors Stone aoSlice acc]
      maskCell_uniform_present [OF faces(1) _ _ nb(1) stone(1)] s0
    by (simp add: show1)
  show "meshFace aoSlice (uniformGrid Stone) bugNeighbors faceNX acc
     = emitQuad aoSlice faceNX (uniformGrid Stone) bugNeighbors (boundarySlice faceNX) 0 0 32 32 Stone acc"
    using meshFace_uniform [OF faces(2) stone, of bugNeighbors Stone aoSlice acc]
      maskCell_uniform_absent [OF faces(2) _ _ nb(2) stone(1)] s0
    by simp
  show "meshFace aoSlice (uniformGrid Stone) bugNeighbors facePY acc
     = emitQuad aoSlice facePY (uniformGrid Stone) bugNeighbors (boundarySlice facePY) 0 0 32 32 Stone acc"
    using meshFace_uniform [OF faces(3) stone, of bugNeighbors Stone aoSlice acc]
      maskCell_uniform_absent [OF faces(3) _ _ nb(3) stone(1)] s0
    by simp
  show "meshFace aoSlice (uniformGrid Stone) bugNeighbors faceNY acc
     = emitQuad aoSlice faceNY (uniformGrid Stone) bugNeighbors (boundarySlice faceNY) 0 0 32 32 Stone acc"
    using meshFace_uniform [OF faces(4) stone, of bugNeighbors Stone aoSlice acc]
      maskCell_uniform_absent [OF faces(4) _ _ nb(4) stone(1)] s0
    by simp
  show "meshFace aoSlice (uniformGrid Stone) bugNeighbors facePZ acc = Inr acc"
    using meshFace_uniform [OF faces(5) stone, of bugNeighbors 0 aoSlice acc]
      maskCell_uniform_present [OF faces(5) _ _ nb(5) stone(1)]
    by (simp add: show2)
  show "meshFace aoSlice (uniformGrid Stone) bugNeighbors faceNZ acc
     = emitQuad aoSlice faceNZ (uniformGrid Stone) bugNeighbors (boundarySlice faceNZ) 0 0 32 32 Stone acc"
    using meshFace_uniform [OF faces(6) stone, of bugNeighbors Stone aoSlice acc]
      maskCell_uniform_absent [OF faces(6) _ _ nb(6) stone(1)] s0
    by simp
qed

lemma emit_bug_sync:
  "emitQuad (\<lambda>face d. int d) facePX (uniformGrid Stone) bugNeighbors (boundarySlice facePX) 0 0 32 32 Stone acc
   = Inr (pushOpaque [32, 0, 0, 32, 0, 32, 32, 32, 32, 32, 32, 0] (concat (replicate 4 [1, 0, 0]))
            [1/2, 1/2, 1/2, 2/5, 2/5, 2/5, 1/2, 1/2, 1/2, 1/2, 1/2, 1/2] [3, 2, 3, 3] acc)"
  "emitQuad (\<lambda>face d. int d) faceNX (uniformGrid Stone) bugNeighbors (boundarySlice faceNX) 0 0 32 32 Stone acc
   = Inr (pushOpaque [0, 0, 0, 0, 0, 32, 0, 32, 32, 0, 32, 0] (concat (replicate 4 [- 1, 0, 0]))
            [1/2, 1/2, 1/2, 2/5, 2/5, 2/5, 1/2, 1/2, 1/2, 1/2, 1/2, 1/2] [3, 2, 3, 3] acc)"
  "emitQuad (\<lambda>face d. int d) facePY (uniformGrid Stone) bugNeighbors (boundarySlice facePY) 0 0 32 32 Stone acc
   = Inr (pushOpaque [0, 32, 0, 32, 32, 0, 32, 32, 32, 0, 32, 32] (concat (replicate 4 [0, 1, 0]))
            [1/2, 1/2, 1/2, 1/2, 1/2, 1/2, 1/2, 1/2, 1/2, 1/5, 1/5, 1/5] [3, 3, 3, 0] acc)"
  "emitQuad (\<lambda>face d. int d) faceNY (uniformGrid Stone) bugNeighbors (boundarySlice faceNY) 0 0 32 32 Stone acc
   = Inr (pushOpaque [0, 0, 0, 32, 0, 0, 32, 0, 32, 0, 0, 32] (concat (replicate 4 [0, - 1, 0]))
            [1/2, 1/2, 1/2, 1/2, 1/2, 1/2, 1/2, 1/2, 1/2, 2/5, 2/5, 2/5] [3, 3, 3, 2] acc)"
  "emitQuad (\<lambda>face d. int d) faceNZ (uniformGrid Stone) bugNeighbors (boundarySlice faceNZ) 0 0 32 32 Stone acc
   = Inr (pushOpaque [0, 0, 0, 32, 0, 0, 32, 32, 0, 0, 32, 0] (concat (replicate 4 [0, 0, - 1]))
            [1/2, 1/2, 1/2, 1/2, 1/2, 1/2, 1/2, 1/2, 1/2, 1/2, 1/2, 1/2] [3, 3, 3, 3] acc)"
  by (simp_all add: emit_eval_bug)

lemma emit_bug_worker:
  "emitQuad (\<lambda>face d. int d + (if faceSign face > 0 then 0 else -1) + faceSign face) facePX
      (uniformGrid Stone) bugNeighbors (boundarySlice facePX) 0 0 32 32 Stone acc
   = Inr (pushOpaque [32, 0, 0, 32, 0, 32, 32, 32, 32, 32, 32, 0] (concat (replicate 4 [1, 0, 0]))
            [1/2, 1/2, 1/2, 1/2, 1/2, 1/2, 1/2, 1/2, 1/2, 1/2, 1/2, 1/2] [3, 3, 3, 3] acc)"
  "emitQuad (\<lambda>face d. int d + (if faceSign face > 0 then 0 else -1) + faceSign face) faceNX
      (uniformGrid Stone) bugNeighbors (boundarySlice faceNX) 0 0 32 32 Stone acc
   = Inr (pushOpaque [0, 0, 0, 0, 0, 32, 0, 32, 32, 0, 32, 0] (concat (replicate 4 [- 1, 0, 0]))
            [1/2, 1/2, 1/2, 1/2, 1/2, 1/2, 1/5, 1/5, 1/5, 1/2, 1/2, 1/2] [3, 3, 0, 3] acc)"
  "emitQuad (\<lambda>face d. int d + (if faceSign face > 0 then 0 else -1) + faceSign face) facePY
      (uniformGrid Stone) bugNeighbors (boundarySlice facePY) 0 0 32 32 Stone acc
   = Inr (pushOpaque [0, 32, 0, 32, 32, 0, 32, 32, 32, 0, 32, 32] (concat (replicate 4 [0, 1, 0]))
            [1/2, 1/2, 1/2, 1/2, 1/2, 1/2, 1/2, 1/2, 1/2, 3/10, 3/10, 3/10] [3, 3, 3, 1] acc)"
  "emitQuad (\<lambda>face d. int d + (if faceSign face > 0 then 0 else -1) + faceSign face) faceNY
      (uniformGrid Stone) bugNeighbors (boundarySlice faceNY) 0 0 32 32 Stone acc
   = Inr (pushOpaque [0, 0, 0, 32, 0, 0, 32, 0, 32, 0, 0, 32] (concat (replicate 4 [0, - 1, 0]))
            [1/2, 1/2, 1/2, 1/2, 1/2, 1/2, 1/2, 1/2, 1/2, 1/2, 1/2, 1/2] [3, 3, 3, 3] acc)"
  "emitQuad (\<lambda>face d. int d + (if faceSign face > 0 then 0 else -1) + faceSign face) faceNZ
      (uniformGrid Stone) bugNeighbors (boundarySlice faceNZ) 0 0 32 32 Stone acc
   = Inr (pushOpaque [0, 0, 0, 32, 0, 0, 32, 32, 0, 0, 32, 0] (concat (replicate 4 [0, 0, - 1]))
            [1/2, 1/2, 1/2, 1/2, 1/2, 1/2, 1/2, 1/2, 1/2, 1/2, 1/2, 1/2] [3, 3, 3, 3] acc)"
  by (simp_all add: emit_eval_bug)

text \<open>
  Claim C10 (evaluation of the code). On the chunk of stone with an air neighbour at
  \<open>+x\<close> and a stone neighbour at \<open>+z\<close>, the synchronous mesher and the worker's mesher
  return different index arrays: for the \<open>+x\<close> quad the synchronous mesher samples the
  occlusion in slice 31, finds the stone of the \<open>+z\<close> neighbour beside corner 1 and flips
  the diagonal; the worker samples in slice 32, finds air, and does not.
\<close>

theorem meshers_differ:
  "map_sum id (map_option indices) (meshChunk (uniformGrid Stone) bugNeighbors 0 0 0)
     = Inr (Some [1, 2, 3, 1, 3, 0,  5, 6, 7, 5, 7, 4,  9, 10, 11, 9, 11, 8,
                  13, 14, 15, 13, 15, 12,  16, 17, 18, 16, 18, 19])
   \<and> map_sum id (map_option indices) (meshChunkData (uniformGrid Stone) bugNeighbors)
     = Inr (Some [0, 1, 2, 0, 2, 3,  4, 5, 6, 4, 6, 7,  9, 10, 11, 9, 11, 8,
                  12, 13, 14, 12, 14, 15,  16, 17, 18, 16, 18, 19])
   \<and> meshChunk (uniformGrid Stone) bugNeighbors 0 0 0 \<noteq> meshChunkData (uniformGrid Stone) bugNeighbors"
proof -
  have a: "map_sum id (map_option indices) (meshChunk (uniformGrid Stone) bugNeighbors 0 0 0)
     = Inr (Some [1, 2, 3, 1, 3, 0,  5, 6, 7, 5, 7, 4,  9, 10, 11, 9, 11, 8,
                  13, 14, 15, 13, 15, 12,  16, 17, 18, 16, 18, 19])"
    by (simp add: meshChunk_def mesher_def FACE_DEFS_names meshFace_bug emit_bug_sync
        pushOpaque_def emptyAcc_def quadIndices_def MeshData.truncate_def)
  have b: "map_sum id (map_option indices) (meshChunkData (uniformGrid Stone) bugNeighbors)
     = Inr (Some [0, 1, 2, 0, 2, 3,  4, 5, 6, 4, 6, 7,  9, 10, 11, 9, 11, 8,
                  12, 13, 14, 12, 14, 15,  16, 17, 18, 16, 18, 19])"
    by (simp add: meshChunkData_def mesher_def FACE_DEFS_names meshFace_bug emit_bug_worker
        pushOpaque_def emptyAcc_def quadIndices_def MeshData.truncate_def)
  have "meshChunk (uniformGrid Stone) bugNeighbors 0 0 0 \<noteq> meshChunkData (uniformGrid Stone) bugNeighbors"
  proof
    assume "meshChunk (uniformGrid Stone) bugNeighbors 0 0 0 = meshChunkData (uniformGrid Stone) bugNeighbors"
    with a b show False by simp
  qed
  with a b show ?thesis by simp
qed


subsection \<open>Invariants of the mask and of the merge loop\<close>


lemma fold_upt_inv:
  assumes "a \<le> b" and "P a s"
    and step: "\<And>i x. a \<le> i \<Longrightarrow> i < b \<Longrightarrow> P i x \<Longrightarrow> P (Suc i) (f i x)"
  shows "P b (fold f [a..<b] s)"
  using assms(1,3)
proof (induction b)
  case 0
  with assms(2) show ?case by simp
next
  case (Suc b)
  show ?case
  proof (cases "a = Suc b")
    case True
    with assms(2) show ?thesis by simp
  next
    case False
    with Suc.prems(1) have le: "a \<le> b" by simp
    have "P b (fold f [a..<b] s)"
      using le Suc.prems(2) by (intro Suc.IH) auto
    then show ?thesis
      using le Suc.prems(2) [of b "fold f [a..<b] s"] by simp
  qed
qed







subsection \<open>The quads of the output\<close>



































section \<open>World save files (server/world/WorldSave.ts)\<close>

definition SAVE_VERSION :: int where "SAVE_VERSION = 1"
definition HEADER_SIZE :: nat where "HEADER_SIZE = 12"
definition CHUNK_KEY_SIZE :: nat where "CHUNK_KEY_SIZE = 12"

text \<open>
  The errors that the \<^verbatim>\<open>Buffer\<close> methods of Node raise: a value outside the signed 32-bit
  range, and an access beyond the buffer.
\<close>

datatype saveError = OutOfRange | OutOfBounds

text \<open>
  \<^verbatim>\<open>SaveData\<close>. The map of modified chunks is given by its entries in insertion order,
  each array by its content.
\<close>

record SaveData =
  savedSeed :: int
  savedChunks :: "(string \<times> nat list) list"

text \<open>
  \<^verbatim>\<open>key.split(',')\<close>: the pieces of the key between its commas.
\<close>

fun splitOn :: "char \<Rightarrow> string \<Rightarrow> string list" where
  "splitOn c [] = [[]]"
| "splitOn c (x # xs) =
     (if x = c then [] # splitOn c xs
      else (case splitOn c xs of [] \<Rightarrow> [[x]] | piece # pieces \<Rightarrow> (x # piece) # pieces))"

text \<open>
  \<^verbatim>\<open>Number(piece)\<close>, on the strings that occur as pieces of chunk keys: the empty string
  is 0, a decimal integer literal with an optional minus sign is its value. \<open>None\<close> is
  \<^verbatim>\<open>NaN\<close>; the other numeric notations of JavaScript (white space, exponents,
  fractions, a radix prefix) are not modelled and are \<^verbatim>\<open>NaN\<close> here.
\<close>

definition isDigit :: "char \<Rightarrow> bool" where
  "isDigit c = (48 \<le> (of_char c :: nat) \<and> (of_char c :: nat) \<le> 57)"

definition parseNat :: "string \<Rightarrow> nat" where
  "parseNat s = foldl (\<lambda>a c. 10 * a + (of_char c - 48)) 0 s"

definition jsNumber :: "string \<Rightarrow> int option" where
  "jsNumber s =
     (case s of
        [] \<Rightarrow> Some 0
      | c # ds \<Rightarrow>
          if c = CHR ''-'' then
            (if ds \<noteq> [] \<and> list_all isDigit ds then Some (- int (parseNat ds)) else None)
          else if list_all isDigit s then Some (int (parseNat s))
          else None)"

text \<open>
  The destructuring \<^verbatim>\<open>[cx, cy, cz] = key.split(',').map(Number)\<close>: a missing component
  is \<^verbatim>\<open>undefined\<close>, which \<^verbatim>\<open>writeInt32LE\<close> converts to \<^verbatim>\<open>NaN\<close>.
\<close>

definition keyComponent :: "string \<Rightarrow> nat \<Rightarrow> int option" where
  "keyComponent key i =
     (let parts = map jsNumber (splitOn CHR '','' key)
      in if i < length parts then parts ! i else None)"

text \<open>The four bytes of a 32-bit integer, least significant first.\<close>

definition int32Bytes :: "int \<Rightarrow> nat list" where
  "int32Bytes v = map (\<lambda>i. nat ((v div 256 ^ i) mod 256)) [0, 1, 2, 3]"

text \<open>
  \<^verbatim>\<open>buf.writeInt32LE(value, offset)\<close>: a value outside the signed 32-bit range raises, then
  an offset beyond the buffer raises; \<^verbatim>\<open>NaN\<close> passes the range check and is written as 0.
\<close>

definition writeInt32 :: "nat list \<Rightarrow> nat \<Rightarrow> int option \<Rightarrow> saveError + nat list" where
  "writeInt32 buf offset val =
     (let v = (case val of None \<Rightarrow> 0 | Some n \<Rightarrow> n)
      in if v > 2147483647 \<or> v < - 2147483648 then Inl OutOfRange
         else if offset + 4 > length buf then Inl OutOfBounds
         else Inr (buf[offset := int32Bytes v ! 0, offset + 1 := int32Bytes v ! 1,
                       offset + 2 := int32Bytes v ! 2, offset + 3 := int32Bytes v ! 3]))"

text \<open>\<^verbatim>\<open>buf.readInt32LE(offset)\<close>.\<close>

definition readInt32 :: "nat list \<Rightarrow> nat \<Rightarrow> saveError + int" where
  "readInt32 buf offset =
     (if offset + 4 > length buf then Inl OutOfBounds
      else
        (let u = int (buf ! offset) + int (buf ! (offset + 1)) * 256
                 + int (buf ! (offset + 2)) * 65536 + int (buf ! (offset + 3)) * 16777216
         in Inr (if u \<ge> 2147483648 then u - 4294967296 else u)))"

text \<open>
  \<^verbatim>\<open>data.forEach((byte, i) => { buf[offset + i] = byte; })\<close>: an assignment beyond the
  buffer is ignored.
\<close>

definition writeBytes :: "nat list \<Rightarrow> nat \<Rightarrow> nat list \<Rightarrow> nat list" where
  "writeBytes buf offset data =
     fold (\<lambda>i buf. if offset + i < length buf then buf[offset + i := (data ! i) mod 256] else buf)
       [0..<length data] buf"

text \<open>The loop over the entries of the map.\<close>

fun saveChunks :: "(string \<times> nat list) list \<Rightarrow> nat list \<Rightarrow> nat \<Rightarrow> saveError + nat list" where
  "saveChunks [] buf offset = Inr buf"
| "saveChunks ((key, data) # rest) buf offset =
     (case writeInt32 buf offset (keyComponent key 0) of
        Inl e \<Rightarrow> Inl e
      | Inr buf1 \<Rightarrow>
         (case writeInt32 buf1 (offset + 4) (keyComponent key 1) of
            Inl e \<Rightarrow> Inl e
          | Inr buf2 \<Rightarrow>
             (case writeInt32 buf2 (offset + 8) (keyComponent key 2) of
                Inl e \<Rightarrow> Inl e
              | Inr buf3 \<Rightarrow>
                  saveChunks rest (writeBytes buf3 (offset + 12) data)
                    (offset + 12 + BLOCKS_PER_CHUNK))))"

text \<open>
  The content of the buffer that \<^verbatim>\<open>saveWorld\<close> writes to the file, or the error that it
  raises before writing.
\<close>

definition saveBuffer :: "int \<Rightarrow> (string \<times> nat list) list \<Rightarrow> saveError + nat list" where
  "saveBuffer seedValue chunkMap =
     (let chunkCount = length chunkMap;
          totalSize = HEADER_SIZE + chunkCount * (CHUNK_KEY_SIZE + BLOCKS_PER_CHUNK);
          buf = replicate totalSize 0
      in case writeInt32 buf 0 (Some SAVE_VERSION) of
           Inl e \<Rightarrow> Inl e
         | Inr buf1 \<Rightarrow>
            (case writeInt32 buf1 4 (Some seedValue) of
               Inl e \<Rightarrow> Inl e
             | Inr buf2 \<Rightarrow>
                (case writeInt32 buf2 8 (Some (int chunkCount)) of
                   Inl e \<Rightarrow> Inl e
                 | Inr buf3 \<Rightarrow> saveChunks chunkMap buf3 12)))"

text \<open>
  The files: a map from paths to contents. Both functions use the path
  \<^verbatim>\<open>join(worldsDir, roomCode, 'world.bin')\<close>.
\<close>

type_synonym files = "string \<Rightarrow> nat list option"

definition worldFile :: "string \<Rightarrow> string \<Rightarrow> string" where
  "worldFile worldsDir roomCode = worldsDir @ ''/'' @ roomCode @ ''/world.bin''"

definition saveWorld :: "files \<Rightarrow> string \<Rightarrow> string \<Rightarrow> int \<Rightarrow> (string \<times> nat list) list \<Rightarrow> saveError + files" where
  "saveWorld fs worldsDir roomCode seedValue chunkMap =
     (case saveBuffer seedValue chunkMap of
        Inl e \<Rightarrow> Inl e
      | Inr buf \<Rightarrow> Inr (fs(worldFile worldsDir roomCode \<mapsto> buf)))"

text \<open>
  The loop of \<^verbatim>\<open>loadWorld\<close> over the chunks; \<open>n\<close> is the number of iterations that
  remain. A byte read beyond the buffer is \<^verbatim>\<open>undefined\<close> and is stored as 0.
\<close>

fun loadChunks :: "nat \<Rightarrow> nat list \<Rightarrow> nat \<Rightarrow> (string \<times> nat list) list
                    \<Rightarrow> saveError + (string \<times> nat list) list" where
  "loadChunks 0 buf offset chunkMap = Inr chunkMap"
| "loadChunks (Suc n) buf offset chunkMap =
     (case readInt32 buf offset of
        Inl e \<Rightarrow> Inl e
      | Inr cx \<Rightarrow>
         (case readInt32 buf (offset + 4) of
            Inl e \<Rightarrow> Inl e
          | Inr cy \<Rightarrow>
             (case readInt32 buf (offset + 8) of
                Inl e \<Rightarrow> Inl e
              | Inr cz \<Rightarrow>
                 (let data = map (\<lambda>j. if offset + 12 + j < length buf then buf ! (offset + 12 + j) else 0)
                               [0..<BLOCKS_PER_CHUNK]
                  in loadChunks n buf (offset + 12 + BLOCKS_PER_CHUNK)
                       (mapSet (chunkKey cx cy cz) data chunkMap)))))"

text \<open>
  \<^verbatim>\<open>loadWorld\<close>: \<^verbatim>\<open>null\<close> when the file is missing, when the version differs, and when an
  exception is caught.
\<close>

definition loadWorld :: "files \<Rightarrow> string \<Rightarrow> string \<Rightarrow> SaveData option" where
  "loadWorld fs worldsDir roomCode =
     (case fs (worldFile worldsDir roomCode) of
        None \<Rightarrow> None
      | Some buf \<Rightarrow>
         (case readInt32 buf 0 of
            Inl e \<Rightarrow> None
          | Inr version \<Rightarrow>
             if version \<noteq> SAVE_VERSION then None
             else
              (case readInt32 buf 4 of
                 Inl e \<Rightarrow> None
               | Inr seedValue \<Rightarrow>
                  (case readInt32 buf 8 of
                     Inl e \<Rightarrow> None
                   | Inr chunkCount \<Rightarrow>
                      (case loadChunks (nat chunkCount) buf 12 [] of
                         Inl e \<Rightarrow> None
                       | Inr chunkMap \<Rightarrow>
                           Some \<lparr> savedSeed = seedValue, savedChunks = chunkMap \<rparr>)))))"

subsection \<open>Properties of the save format\<close>

lemma int32_digits:
  fixes v :: int
  shows "v mod 256 + (v div 256) mod 256 * 256 + (v div 65536) mod 256 * 65536
          + (v div 16777216) mod 256 * 16777216 = v mod 4294967296"
proof -
  have d2: "v div 65536 = v div 256 div 256"
    using zdiv_zmult2_eq [of 256 v 256] by simp
  have d3: "v div 16777216 = v div 256 div 256 div 256"
    using zdiv_zmult2_eq [of 256 "v div 256" 256] zdiv_zmult2_eq [of 65536 v 256] d2 by simp
  have m1: "v mod 4294967296 = 256 * ((v div 256) mod 16777216) + v mod 256"
    using zmod_zmult2_eq [of 16777216 v 256] by simp
  have m2: "(v div 256) mod 16777216 = 256 * ((v div 256 div 256) mod 65536) + (v div 256) mod 256"
    using zmod_zmult2_eq [of 65536 "v div 256" 256] by simp
  have m3: "(v div 256 div 256) mod 65536
            = 256 * ((v div 256 div 256 div 256) mod 256) + (v div 256 div 256) mod 256"
    using zmod_zmult2_eq [of 256 "v div 256 div 256" 256] by simp
  show ?thesis
    unfolding m1 m2 m3 d2 d3 by simp
qed

lemma int32_signed:
  fixes v :: int
  assumes "- 2147483648 \<le> v" "v \<le> 2147483647"
  shows "(if v mod 4294967296 \<ge> 2147483648 then v mod 4294967296 - 4294967296
          else v mod 4294967296) = v"
proof (cases "0 \<le> v")
  case True
  then have "v mod 4294967296 = v"
    using assms by (intro mod_pos_pos_trivial) simp_all
  with assms show ?thesis by simp
next
  case False
  have "(v + 4294967296) mod 4294967296 = v + 4294967296"
    using assms False by (intro mod_pos_pos_trivial) simp_all
  then have "v mod 4294967296 = v + 4294967296"
    by simp
  with assms False show ?thesis by simp
qed

lemma int32_decode:
  assumes "- 2147483648 \<le> v" "v \<le> 2147483647"
  shows "(let u = int (int32Bytes v ! 0) + int (int32Bytes v ! 1) * 256
                 + int (int32Bytes v ! 2) * 65536 + int (int32Bytes v ! 3) * 16777216
          in (if u \<ge> 2147483648 then u - 4294967296 else u)) = v"
proof -
  have b: "int (int32Bytes v ! 0) = v mod 256"
    "int (int32Bytes v ! 1) = (v div 256) mod 256"
    "int (int32Bytes v ! 2) = (v div 65536) mod 256"
    "int (int32Bytes v ! 3) = (v div 16777216) mod 256"
    by (simp_all add: int32Bytes_def)
  show ?thesis
    unfolding b Let_def int32_digits using int32_signed [OF assms] .
qed

lemma int32Bytes_length [simp]: "length (int32Bytes v) = 4"
  by (simp add: int32Bytes_def)

lemma int32Bytes_expand:
  "int32Bytes v = [int32Bytes v ! 0, int32Bytes v ! 1, int32Bytes v ! 2, int32Bytes v ! 3]"
  by (simp add: int32Bytes_def)

lemma writeInt32_zeros:
  assumes "4 \<le> m" and "- 2147483648 \<le> v" and "v \<le> 2147483647"
  shows "writeInt32 (pre @ replicate m 0) (length pre) (Some v)
         = Inr ((pre @ int32Bytes v) @ replicate (m - 4) 0)"
proof -
  obtain k where m: "m = 4 + k"
    using assms(1) by (metis le_iff_add)
  have z: "replicate m (0::nat) = [0, 0, 0, 0] @ replicate k 0"
    unfolding m replicate_add by (simp add: numeral_eq_Suc)
  have k: "m - 4 = k" using m by simp
  have e: "pre @ [int32Bytes v ! 0, int32Bytes v ! 1, int32Bytes v ! 2, int32Bytes v ! 3]
             @ replicate k 0 = (pre @ int32Bytes v) @ replicate k 0"
    using int32Bytes_expand [of v] by simp
  have core: "(pre @ replicate m 0)
           [length pre := int32Bytes v ! 0, length pre + 1 := int32Bytes v ! 1,
            length pre + 2 := int32Bytes v ! 2, length pre + 3 := int32Bytes v ! 3]
        = (pre @ int32Bytes v) @ replicate (m - 4) 0"
    unfolding z k e [symmetric] by (simp add: list_update_append)
  have len: "\<not> length pre + 4 > length (pre @ replicate m (0::nat))"
    using assms(1) by simp
  show ?thesis
    unfolding writeInt32_def Let_def option.case core
    using assms(2,3) len by simp
qed

lemma readInt32_at:
  assumes "- 2147483648 \<le> v" and "v \<le> 2147483647"
  shows "readInt32 (pre @ int32Bytes v @ rest) (length pre) = Inr v"
proof -
  have n: "(pre @ int32Bytes v @ rest) ! (length pre + i) = int32Bytes v ! i" if "i < 4" for i
    using that by (simp add: nth_append)
  have n0: "(pre @ int32Bytes v @ rest) ! length pre = int32Bytes v ! 0"
    using n [of 0] by simp
  show ?thesis
    using int32_decode [OF assms] n [of 1] n [of 2] n [of 3] n0
    by (simp add: readInt32_def Let_def)
qed

lemma writeBytes_prefix:
  fixes data :: "nat list"
  assumes "length data \<le> m" and "\<forall>b \<in> set data. b < 256" and "k \<le> length data"
  shows "fold (\<lambda>i buf. if length pre + i < length buf then buf[length pre + i := (data ! i) mod 256] else buf)
           [0..<k] (pre @ replicate m 0)
         = pre @ take k data @ replicate (m - k) 0"
  using assms(3)
proof (induction k)
  case 0
  then show ?case by simp
next
  case (Suc k)
  then have k: "k < length data" by simp
  then have km: "k < m" using assms(1) by simp
  have byte: "data ! k mod 256 = data ! k"
    using assms(2) k by simp
  have r: "replicate (m - k) (0::nat) = 0 # replicate (m - Suc k) 0"
    using km by (metis Suc_diff_Suc replicate_Suc)
  have "(pre @ take k data @ replicate (m - k) 0)[length pre + k := data ! k]
        = pre @ take k data @ (data ! k) # replicate (m - Suc k) 0"
    using k by (simp add: list_update_append r)
  also have "\<dots> = pre @ take (Suc k) data @ replicate (m - Suc k) 0"
    using k by (simp add: take_Suc_conv_app_nth)
  finally show ?case
    using Suc k km by (simp add: byte)
qed

lemma writeBytes_zeros:
  fixes data :: "nat list"
  assumes "length data \<le> m" and "\<forall>b \<in> set data. b < 256"
  shows "writeBytes (pre @ replicate m 0) (length pre) data
         = (pre @ data) @ replicate (m - length data) 0"
  using writeBytes_prefix [OF assms le_refl, of pre] by (simp add: writeBytes_def)

lemma read_data:
  fixes data :: "nat list"
  shows "map (\<lambda>j. if length pre + j < length (pre @ data @ rest) then (pre @ data @ rest) ! (length pre + j) else 0)
     [0..<length data] = data"
  by (intro nth_equalityI) (simp_all add: nth_append)

lemma of_char_digitChar: "d < 10 \<Longrightarrow> (of_char (digitChar d) :: nat) = 48 + d"
  by (simp add: digitChar_def)

lemma isDigit_digitChar: "d < 10 \<Longrightarrow> isDigit (digitChar d)"
  by (simp add: isDigit_def of_char_digitChar)

lemma showNat_digits: "list_all isDigit (showNat n) \<and> showNat n \<noteq> []"
proof (induction n rule: showNat.induct)
  case (1 n)
  show ?case
  proof (cases "n < 10")
    case True
    then show ?thesis
      by (subst (1 2) showNat.simps) (simp add: isDigit_digitChar)
  next
    case False
    with 1 show ?thesis
      by (subst (1 2) showNat.simps) (simp add: isDigit_digitChar)
  qed
qed

lemma parseNat_snoc: "parseNat (s @ [c]) = 10 * parseNat s + (of_char c - 48)"
  by (simp add: parseNat_def)

lemma parseNat_showNat: "parseNat (showNat n) = n"
proof (induction n rule: showNat.induct)
  case (1 n)
  show ?case
  proof (cases "n < 10")
    case True
    then show ?thesis
      by (subst showNat.simps) (simp add: parseNat_def of_char_digitChar)
  next
    case False
    with 1 show ?thesis
      by (subst showNat.simps) (simp add: parseNat_snoc of_char_digitChar)
  qed
qed

lemma isDigit_not_sep: "isDigit c \<Longrightarrow> c \<noteq> CHR '','' \<and> c \<noteq> CHR ''-''"
  by (auto simp add: isDigit_def)

lemma jsNumber_showInt: "jsNumber (showInt i) = Some i"
proof (cases "i < 0")
  case True
  then show ?thesis
    using showNat_digits [of "nat (- i)"]
    by (simp add: showInt_def jsNumber_def parseNat_showNat)
next
  case False
  obtain c ds where s: "showNat (nat i) = c # ds"
    using showNat_digits [of "nat i"] by (cases "showNat (nat i)") auto
  have d: "list_all isDigit (c # ds)"
    using showNat_digits [of "nat i"] s by simp
  then have "c \<noteq> CHR ''-''"
    using isDigit_not_sep [of c] by simp
  moreover have "parseNat (c # ds) = nat i"
    using parseNat_showNat [of "nat i"] s by simp
  ultimately show ?thesis
    using False d by (simp add: showInt_def jsNumber_def s)
qed

lemma showInt_no_comma: "CHR '','' \<notin> set (showInt i)"
proof -
  have "CHR '','' \<notin> set (showNat n)" for n
    using showNat_digits [of n] isDigit_not_sep by (auto simp add: list_all_iff)
  then show ?thesis
    by (simp add: showInt_def)
qed

lemma splitOn_nonempty: "splitOn c s \<noteq> []"
  by (induction s) (auto split: list.splits)

lemma splitOn_no_sep: "c \<notin> set s \<Longrightarrow> splitOn c s = [s]"
  by (induction s) auto

lemma splitOn_append: "c \<notin> set s \<Longrightarrow> splitOn c (s @ c # rest) = s # splitOn c rest"
  by (induction s) auto

lemma splitOn_chunkKey:
  "splitOn CHR '','' (chunkKey a b c) = [showInt a, showInt b, showInt c]"
proof -
  have "chunkKey a b c = showInt a @ CHR '','' # (showInt b @ CHR '','' # showInt c)"
    by (simp add: chunkKey_def)
  then show ?thesis
    by (simp add: splitOn_append splitOn_no_sep showInt_no_comma)
qed

lemma keyComponent_chunkKey:
  "keyComponent (chunkKey a b c) 0 = Some a"
  "keyComponent (chunkKey a b c) 1 = Some b"
  "keyComponent (chunkKey a b c) 2 = Some c"
  "keyComponent (chunkKey a b c) (Suc 0) = Some b"
  by (simp_all add: keyComponent_def splitOn_chunkKey jsNumber_showInt)

text \<open>
  The signed 32-bit range; the entries that the format can hold, namely a grid of 32768
  bytes under a key made by \<open>chunkKey\<close> from three integers of that range; and the
  bytes that encode such an entry.
\<close>

definition inInt32 :: "int \<Rightarrow> bool" where
  "inInt32 v = (- 2147483648 \<le> v \<and> v \<le> 2147483647)"

definition goodChunk :: "string \<times> nat list \<Rightarrow> bool" where
  "goodChunk e =
     (length (snd e) = 32768 \<and> list_all (\<lambda>b. b < 256) (snd e)
      \<and> (\<exists>a b c. inInt32 a \<and> inInt32 b \<and> inInt32 c \<and> fst e = chunkKey a b c))"

definition encodeChunk :: "string \<times> nat list \<Rightarrow> nat list" where
  "encodeChunk e =
     int32Bytes (the (keyComponent (fst e) 0)) @ int32Bytes (the (keyComponent (fst e) 1))
     @ int32Bytes (the (keyComponent (fst e) 2)) @ snd e"

lemma mapSet_fresh: "k \<notin> fst ` set m \<Longrightarrow> mapSet k v m = m @ [(k, v)]"
  by (induction m) auto

lemma saveChunks_zeros:
  assumes "\<forall>e \<in> set cs. goodChunk e"
  shows "saveChunks cs (pre @ replicate (length cs * 32780) 0) (length pre)
         = Inr (pre @ concat (map encodeChunk cs))"
  using assms
proof (induction cs arbitrary: pre)
  case Nil
  then show ?case by simp
next
  case (Cons e cs)
  from Cons.prems obtain a b c d where
    abc: "inInt32 a" "inInt32 b" "inInt32 c" and e: "e = (chunkKey a b c, d)"
    and d: "length d = 32768" "\<forall>x \<in> set d. x < 256"
    by (cases e) (auto simp add: goodChunk_def list_all_iff)
  let ?m = "32780 + length cs * 32780"
  let ?A = "int32Bytes a" and ?B = "int32Bytes b" and ?C = "int32Bytes c"
  have w1: "writeInt32 (pre @ replicate ?m 0) (length pre) (Some a)
            = Inr ((pre @ ?A) @ replicate (?m - 4) 0)"
    using abc(1) by (intro writeInt32_zeros) (simp_all add: inInt32_def)
  have w2: "writeInt32 ((pre @ ?A) @ replicate (?m - 4) 0) (length pre + 4) (Some b)
            = Inr ((pre @ ?A @ ?B) @ replicate (?m - 8) 0)"
    using writeInt32_zeros [of "?m - 4" b "pre @ ?A"] abc(2) by (simp add: inInt32_def)
  have w3: "writeInt32 ((pre @ ?A @ ?B) @ replicate (?m - 8) 0) (length pre + 8) (Some c)
            = Inr ((pre @ ?A @ ?B @ ?C) @ replicate (?m - 12) 0)"
    using writeInt32_zeros [of "?m - 8" c "pre @ ?A @ ?B"] abc(3) by (simp add: inInt32_def)
  have w4: "writeBytes ((pre @ ?A @ ?B @ ?C) @ replicate (?m - 12) 0) (length pre + 12) d
            = (pre @ ?A @ ?B @ ?C @ d) @ replicate (length cs * 32780) 0"
    using writeBytes_zeros [of d "?m - 12" "pre @ ?A @ ?B @ ?C"] d by simp
  have len: "length (pre @ ?A @ ?B @ ?C @ d) = length pre + 12 + BLOCKS_PER_CHUNK"
    using d by (simp add: BLOCKS_PER_CHUNK_def)
  have ih: "saveChunks cs ((pre @ ?A @ ?B @ ?C @ d) @ replicate (length cs * 32780) 0)
              (length pre + 12 + BLOCKS_PER_CHUNK)
            = Inr ((pre @ ?A @ ?B @ ?C @ d) @ concat (map encodeChunk cs))"
    using Cons.IH [of "pre @ ?A @ ?B @ ?C @ d"] Cons.prems unfolding len by simp
  have enc: "encodeChunk e = ?A @ ?B @ ?C @ d"
    by (simp add: encodeChunk_def e keyComponent_chunkKey)
  have m: "length (e # cs) * 32780 = ?m" by simp
  have "saveChunks (e # cs) (pre @ replicate ?m 0) (length pre)
        = saveChunks cs (writeBytes ((pre @ ?A @ ?B @ ?C) @ replicate (?m - 12) 0) (length pre + 12) d)
            (length pre + 12 + BLOCKS_PER_CHUNK)"
    unfolding e saveChunks.simps keyComponent_chunkKey w1 w2 w3 sum.case ..
  also have "\<dots> = Inr ((pre @ ?A @ ?B @ ?C @ d) @ concat (map encodeChunk cs))"
    unfolding w4 ih ..
  finally show ?case
    unfolding m by (simp add: enc)
qed

lemma loadChunks_encoded:
  assumes "\<forall>e \<in> set cs. goodChunk e" and "distinct (map fst (acc @ cs))"
  shows "loadChunks (length cs) (pre @ concat (map encodeChunk cs)) (length pre) acc
         = Inr (acc @ cs)"
  using assms
proof (induction cs arbitrary: pre acc)
  case Nil
  then show ?case by simp
next
  case (Cons e cs)
  obtain key d where e: "e = (key, d)" by (cases e)
  from Cons.prems(1) e obtain a b c where
    abc: "inInt32 a" "inInt32 b" "inInt32 c" "key = chunkKey a b c"
    and d: "length d = 32768" "\<forall>x \<in> set d. x < 256"
    by (auto simp add: goodChunk_def list_all_iff)
  let ?A = "int32Bytes a" and ?B = "int32Bytes b" and ?C = "int32Bytes c"
  let ?rest = "concat (map encodeChunk cs)"
  let ?buf = "pre @ concat (map encodeChunk (e # cs))"
  have enc: "encodeChunk e = ?A @ ?B @ ?C @ d"
    by (simp add: encodeChunk_def e abc(4) keyComponent_chunkKey)
  have buf: "?buf = pre @ ?A @ ?B @ ?C @ d @ ?rest"
    by (simp add: enc)
  have r1: "readInt32 ?buf (length pre) = Inr a"
    unfolding buf using abc(1) by (intro readInt32_at) (simp_all add: inInt32_def)
  have r2: "readInt32 ?buf (length pre + 4) = Inr b"
    unfolding buf
    using readInt32_at [of b "pre @ ?A" "?C @ d @ ?rest"] abc(2) by (simp add: inInt32_def)
  have r3: "readInt32 ?buf (length pre + 8) = Inr c"
    unfolding buf
    using readInt32_at [of c "pre @ ?A @ ?B" "d @ ?rest"] abc(3) by (simp add: inInt32_def)
  have r4: "map (\<lambda>j. if length pre + 12 + j < length ?buf then ?buf ! (length pre + 12 + j) else 0)
              [0..<BLOCKS_PER_CHUNK] = d"
    unfolding buf
    by (intro nth_equalityI) (simp_all add: d BLOCKS_PER_CHUNK_def nth_append)
  have fresh: "key \<notin> fst ` set acc"
    using Cons.prems(2) e by auto
  have len: "length (pre @ ?A @ ?B @ ?C @ d) = length pre + 12 + BLOCKS_PER_CHUNK"
    using d by (simp add: BLOCKS_PER_CHUNK_def)
  have ih: "loadChunks (length cs) ((pre @ ?A @ ?B @ ?C @ d) @ ?rest) (length pre + 12 + BLOCKS_PER_CHUNK)
              (acc @ [(key, d)]) = Inr ((acc @ [(key, d)]) @ cs)"
    using Cons.IH [of "acc @ [(key, d)]" "pre @ ?A @ ?B @ ?C @ d"] Cons.prems e unfolding len by simp
  have "loadChunks (Suc (length cs)) ?buf (length pre) acc
        = loadChunks (length cs) ?buf (length pre + 12 + BLOCKS_PER_CHUNK)
            (mapSet (chunkKey a b c) d acc)"
    unfolding loadChunks.simps r1 r2 r3 r4 sum.case Let_def ..
  also have "\<dots> = Inr ((acc @ [(key, d)]) @ cs)"
    using ih fresh by (simp add: enc mapSet_fresh abc(4))
  finally show ?case
    by (simp add: e)
qed

text \<open>No file exists.\<close>

definition noFiles :: files where
  "noFiles = (\<lambda>path. None)"

lemma saveBuffer_encoded:
  assumes "inInt32 seedValue" and "length cs \<le> 2147483647" and "\<forall>e \<in> set cs. goodChunk e"
  shows "saveBuffer seedValue cs
         = Inr ((int32Bytes 1 @ int32Bytes seedValue @ int32Bytes (int (length cs)))
                 @ concat (map encodeChunk cs))"
proof -
  let ?n = "length cs * 32780"
  let ?V = "int32Bytes 1" and ?S = "int32Bytes seedValue" and ?C = "int32Bytes (int (length cs))"
  have w1: "writeInt32 (replicate (12 + ?n) 0) 0 (Some 1) = Inr (?V @ replicate (8 + ?n) 0)"
    using writeInt32_zeros [of "12 + ?n" 1 "[]"] by simp
  have w2: "writeInt32 (?V @ replicate (8 + ?n) 0) 4 (Some seedValue)
            = Inr ((?V @ ?S) @ replicate (4 + ?n) 0)"
    using writeInt32_zeros [of "8 + ?n" seedValue ?V] assms(1) by (simp add: inInt32_def)
  have w3: "writeInt32 ((?V @ ?S) @ replicate (4 + ?n) 0) 8 (Some (int (length cs)))
            = Inr ((?V @ ?S @ ?C) @ replicate ?n 0)"
    using writeInt32_zeros [of "4 + ?n" "int (length cs)" "?V @ ?S"] assms(2) by simp
  have s: "saveChunks cs ((?V @ ?S @ ?C) @ replicate ?n 0) 12
           = Inr ((?V @ ?S @ ?C) @ concat (map encodeChunk cs))"
    using saveChunks_zeros [OF assms(3), of "?V @ ?S @ ?C"] by simp
  have size: "HEADER_SIZE + length cs * (CHUNK_KEY_SIZE + BLOCKS_PER_CHUNK) = 12 + ?n"
    by (simp add: HEADER_SIZE_def CHUNK_KEY_SIZE_def BLOCKS_PER_CHUNK_def)
  show ?thesis
    unfolding saveBuffer_def Let_def size SAVE_VERSION_def w1 sum.case w2 w3 s ..
qed

text \<open>
  Claim C4, as amended. For every seed in the signed 32-bit range and every map of
  modified chunks (fewer than \<open>2^31\<close> entries, distinct keys) whose keys are chunk keys
  of integer coordinates in the signed 32-bit range and whose grids have 32768 bytes,
  \<open>saveWorld\<close> writes a file from which \<open>loadWorld\<close> returns the seed that was saved
  and the same entries: the same keys, in the same order, each with a byte-identical
  grid.
\<close>

theorem save_load_roundtrip:
  assumes "inInt32 seedValue" and "length cs \<le> 2147483647"
    and "distinct (map fst cs)" and "list_all goodChunk cs"
  shows "\<exists>fs'. saveWorld fs worldsDir roomCode seedValue cs = Inr fs'
           \<and> loadWorld fs' worldsDir roomCode = Some \<lparr> savedSeed = seedValue, savedChunks = cs \<rparr>"
proof -
  let ?V = "int32Bytes 1" and ?S = "int32Bytes seedValue" and ?C = "int32Bytes (int (length cs))"
  let ?E = "concat (map encodeChunk cs)"
  let ?buf = "(?V @ ?S @ ?C) @ ?E"
  have good: "\<forall>e \<in> set cs. goodChunk e"
    using assms(4) by (simp add: list_all_iff)
  have sv: "saveBuffer seedValue cs = Inr ?buf"
    using saveBuffer_encoded [OF assms(1,2) good] .
  have r1: "readInt32 ?buf 0 = Inr 1"
    using readInt32_at [of 1 "[]" "?S @ ?C @ ?E"] by simp
  have r2: "readInt32 ?buf 4 = Inr seedValue"
    using readInt32_at [of seedValue ?V "?C @ ?E"] assms(1) by (simp add: inInt32_def)
  have r3: "readInt32 ?buf 8 = Inr (int (length cs))"
    using readInt32_at [of "int (length cs)" "?V @ ?S" ?E] assms(2) by simp
  have l: "loadChunks (length cs) ?buf 12 [] = Inr cs"
    using loadChunks_encoded [of cs "[]" "?V @ ?S @ ?C"] assms(3) good by simp
  have "loadWorld (fs(worldFile worldsDir roomCode \<mapsto> ?buf)) worldsDir roomCode
        = Some \<lparr> savedSeed = seedValue, savedChunks = cs \<rparr>"
    by (simp add: loadWorld_def r1 r2 r3 l SAVE_VERSION_def del: append_assoc)
  then show ?thesis
    by (simp add: saveWorld_def sv)
qed

theorem save_load_roundtrip_witness:
  "inInt32 12345 \<and> length [(chunkKey 0 2 (- 1), replicate 32768 Stone)] \<le> 2147483647
   \<and> distinct (map fst [(chunkKey 0 2 (- 1), replicate 32768 Stone)])
   \<and> list_all goodChunk [(chunkKey 0 2 (- 1), replicate 32768 Stone)]
   \<and> (\<exists>fs'. saveWorld noFiles ''worlds'' ''ABC123'' 12345 [(chunkKey 0 2 (- 1), replicate 32768 Stone)] = Inr fs'
         \<and> loadWorld fs' ''worlds'' ''ABC123''
             = Some \<lparr> savedSeed = 12345, savedChunks = [(chunkKey 0 2 (- 1), replicate 32768 Stone)] \<rparr>)"
proof -
  have s: "inInt32 12345" by (simp add: inInt32_def)
  have "inInt32 0 \<and> inInt32 2 \<and> inInt32 (- 1) \<and> chunkKey 0 2 (- 1) = chunkKey 0 2 (- 1)"
    by (simp add: inInt32_def)
  then have "\<exists>a b c. inInt32 a \<and> inInt32 b \<and> inInt32 c \<and> chunkKey 0 2 (- 1) = chunkKey a b c"
    by blast
  then have g: "list_all goodChunk [(chunkKey 0 2 (- 1), replicate 32768 Stone)]"
    by (simp add: goodChunk_def Stone_def list_all_iff)
  have l: "length [(chunkKey 0 2 (- 1), replicate 32768 Stone)] \<le> 2147483647" by simp
  have d: "distinct (map fst [(chunkKey 0 2 (- 1), replicate 32768 Stone)])" by simp
  from save_load_roundtrip [OF s l d g, of noFiles "''worlds''" "''ABC123''"] s l d g
  show ?thesis by blast
qed

text \<open>
  The claim as stated fails for a chunk coordinate beyond the signed 32-bit range, such
  as the chunk \<open>2^31\<close> that \<open>setBlock\<close> creates for \<open>x = 2^36\<close>: \<open>saveWorld\<close> raises
  in \<^verbatim>\<open>writeInt32LE\<close>, no file is written, and \<open>loadWorld\<close> returns \<^verbatim>\<open>null\<close>.
\<close>

theorem save_out_of_range_counterexample:
  "saveWorld noFiles ''worlds'' ''ABC123'' 0 [(chunkKey 2147483648 0 0, replicate 32768 Stone)]
     = Inl OutOfRange
   \<and> loadWorld noFiles ''worlds'' ''ABC123'' = None"
proof -
  let ?V = "int32Bytes 1" and ?S = "int32Bytes 0" and ?C = "int32Bytes 1"
  have w1: "writeInt32 (replicate 32792 0) 0 (Some 1) = Inr (?V @ replicate 32788 0)"
    using writeInt32_zeros [of 32792 1 "[]"] by simp
  have w2: "writeInt32 (?V @ replicate 32788 0) 4 (Some 0)
            = Inr ((?V @ ?S) @ replicate 32784 0)"
    using writeInt32_zeros [of 32788 0 ?V] by simp
  have w3: "writeInt32 ((?V @ ?S) @ replicate 32784 0) 8 (Some 1)
            = Inr ((?V @ ?S @ ?C) @ replicate 32780 0)"
    using writeInt32_zeros [of 32784 1 "?V @ ?S"] by simp
  have w4: "writeInt32 buf 12 (Some 2147483648) = Inl OutOfRange" for buf
    by (simp add: writeInt32_def)
  have size: "HEADER_SIZE + length [(chunkKey 2147483648 0 0, replicate 32768 Stone)]
                * (CHUNK_KEY_SIZE + BLOCKS_PER_CHUNK) = 32792"
    by (simp add: HEADER_SIZE_def CHUNK_KEY_SIZE_def BLOCKS_PER_CHUNK_def)
  have one: "int (length [(chunkKey 2147483648 0 0, replicate 32768 Stone)]) = 1"
    by simp
  have "saveBuffer 0 [(chunkKey 2147483648 0 0, replicate 32768 Stone)] = Inl OutOfRange"
    unfolding saveBuffer_def Let_def size SAVE_VERSION_def one w1 sum.case w2 w3
      saveChunks.simps keyComponent_chunkKey w4 ..
  then show ?thesis
    by (simp add: saveWorld_def loadWorld_def noFiles_def)
qed

end
